theory Spec2Isabelle
  imports Complex_Main "HOL-Library.Sublist" "HOL-Library.Multiset"
begin

section \<open>JavaScript values\<close>

text \<open>
  The request layer of \<^verbatim>\<open>src/utils/requests.ts\<close> works on untyped data (\<^verbatim>\<open>any\<close>):
  parsed JSON bodies, parameter objects and the intermediate results of optional chaining.
  A value is one of JavaScript's primitives, an array or a plain object. An object keeps
  its own properties in insertion order, with pairwise different keys. Numbers are the
  safe integers, those of magnitude at most \<open>2\<^sup>5\<^sup>3 - 1\<close> (offsets, limits, counts):
  \<open>JNum n\<close> stands for a number only when \<open>n\<close> is one (\<open>safe_numbers\<close> below), and
  no other number is modelled. Strings are byte strings (UTF-8).
\<close>

datatype jsval =
    JUndefined
  | JNull
  | JBool bool
  | JNum int
  | JStr string
  | JArr "jsval list"
  | JObj "(string \<times> jsval) list"

text \<open>The exceptions the code can meet. \<open>Error\<close> carries the message given to
  \<^verbatim>\<open>new Error(...)\<close>; \<open>TypeError\<close> is what the engine raises on a property read of
  \<^verbatim>\<open>undefined\<close> or \<^verbatim>\<open>null\<close> and on a call of something that is no function;
  \<open>SyntaxError\<close> is what \<^verbatim>\<open>res.json()\<close> raises on a body that is no JSON;
  \<open>NetworkError\<close> is the rejection of \<^verbatim>\<open>fetch\<close> itself.\<close>

datatype js_error =
    Error string
  | TypeError
  | SyntaxError
  | NetworkError

definition nullish :: "jsval \<Rightarrow> bool" where
  "nullish v = (v = JUndefined \<or> v = JNull)"

text \<open>Truthiness, as \<^verbatim>\<open>||\<close> tests it.\<close>

fun truthy :: "jsval \<Rightarrow> bool" where
  "truthy JUndefined = False"
| "truthy JNull = False"
| "truthy (JBool b) = b"
| "truthy (JNum n) = (n \<noteq> 0)"
| "truthy (JStr s) = (s \<noteq> [])"
| "truthy (JArr xs) = True"
| "truthy (JObj kvs) = True"

definition js_or :: "jsval \<Rightarrow> jsval \<Rightarrow> jsval" where
  "js_or a b = (if truthy a then a else b)"

subsection \<open>Numbers and strings\<close>

definition digit_char :: "nat \<Rightarrow> char" where
  "digit_char d = ''0123456789'' ! (d mod 10)"

fun show_nat :: "nat \<Rightarrow> string" where
  "show_nat n = (if n < 10 then [digit_char n] else show_nat (n div 10) @ [digit_char (n mod 10)])"

declare show_nat.simps [simp del]

definition show_int :: "int \<Rightarrow> string" where
  "show_int i = (if i < 0 then CHR ''-'' # show_nat (nat (- i)) else show_nat (nat i))"

fun join_with :: "string \<Rightarrow> string list \<Rightarrow> string" where
  "join_with sep [] = []"
| "join_with sep [x] = x"
| "join_with sep (x # y # ys) = x @ sep @ join_with sep (y # ys)"


text \<open>\<^verbatim>\<open>ToString\<close>, which a template literal and \<^verbatim>\<open>URLSearchParams.append\<close> apply to
  their arguments. A number that is a safe integer prints as its decimal numeral. An
  array joins its elements with commas, an absent element giving the empty string; a
  plain object prints as \<^verbatim>\<open>[object Object]\<close>.\<close>

fun to_string :: "jsval \<Rightarrow> string" where
  "to_string JUndefined = ''undefined''"
| "to_string JNull = ''null''"
| "to_string (JBool b) = (if b then ''true'' else ''false'')"
| "to_string (JNum n) = show_int n"
| "to_string (JStr s) = s"
| "to_string (JArr xs) =
     join_with '','' (map (\<lambda>x. if x = JUndefined \<or> x = JNull then [] else to_string x) xs)"
| "to_string (JObj kvs) = ''[object Object]''"

section \<open>Query serializer\<close>

subsection \<open>The form encoding of \<^verbatim>\<open>URLSearchParams.toString\<close>\<close>

text \<open>\<^verbatim>\<open>searchParams.toString()\<close> writes the appended pairs as
  \<^verbatim>\<open>application/x-www-form-urlencoded\<close>: a byte that is a letter, a digit or one of
  \<^verbatim>\<open>* - . _\<close> stands for itself, a space becomes \<^verbatim>\<open>+\<close>, and every other byte
  becomes \<^verbatim>\<open>%\<close> and two upper-case hexadecimal digits. Pairs are \<^verbatim>\<open>name=value\<close>,
  joined by \<^verbatim>\<open>&\<close>.\<close>

definition form_safe :: "char \<Rightarrow> bool" where
  "form_safe c =
     (c \<in> set ''ABCDEFGHIJKLMNOPQRSTUVWXYZabcdefghijklmnopqrstuvwxyz0123456789*-._'')"

definition hex_char :: "nat \<Rightarrow> char" where
  "hex_char d = ''0123456789ABCDEF'' ! (d mod 16)"

definition form_byte :: "char \<Rightarrow> string" where
  "form_byte c =
     (if c = CHR '' '' then ''+''
      else if form_safe c then [c]
      else [CHR ''%'', hex_char (of_char c div 16), hex_char (of_char c mod 16)])"

definition form_encode :: "string \<Rightarrow> string" where
  "form_encode s = concat (map form_byte s)"

definition form_pair :: "string \<times> string \<Rightarrow> string" where
  "form_pair p = form_encode (fst p) @ ''='' @ form_encode (snd p)"

definition urlencoded :: "(string \<times> string) list \<Rightarrow> string" where
  "urlencoded ps = join_with ''&'' (map form_pair ps)"

subsection \<open>\<^verbatim>\<open>Object.entries\<close>\<close>

text \<open>\<^verbatim>\<open>Object.entries\<close> lists an object's own properties in property order: the keys
  that are array indices (canonical decimal numerals below \<open>2\<^sup>3\<^sup>2 - 1\<close>) first, in
  ascending numeric order, then the other keys in the order of their insertion. On
  \<^verbatim>\<open>null\<close> it raises a TypeError (\<^verbatim>\<open>typeof null\<close> is \<^verbatim>\<open>"object"\<close>, so the
  serializer reaches it).\<close>

definition digit_val :: "char \<Rightarrow> nat" where
  "digit_val c = of_char c - 48"

definition nat_of_digits :: "string \<Rightarrow> nat" where
  "nat_of_digits s = foldl (\<lambda>acc c. 10 * acc + digit_val c) 0 s"

definition is_array_index :: "string \<Rightarrow> bool" where
  "is_array_index s =
     (s \<noteq> [] \<and> list_all (\<lambda>c. c \<in> set ''0123456789'') s
      \<and> (if length s = 1 then True else hd s \<noteq> CHR ''0'')
      \<and> nat_of_digits s < 4294967295)"

definition object_entries :: "(string \<times> jsval) list \<Rightarrow> (string \<times> jsval) list" where
  "object_entries kvs =
     sort_key (\<lambda>kv. nat_of_digits (fst kv)) (filter (\<lambda>kv. is_array_index (fst kv)) kvs)
     @ filter (\<lambda>kv. \<not> is_array_index (fst kv)) kvs"

subsection \<open>\<^verbatim>\<open>serializeParameters\<close>\<close>

text \<open>One entry of the parameter object, as the body of the outer \<^verbatim>\<open>forEach\<close> treats it:
  an array appends \<^verbatim>\<open>key[]\<close> once per element, any other value whose \<^verbatim>\<open>typeof\<close> is
  \<^verbatim>\<open>"object"\<close> appends \<^verbatim>\<open>key[k]\<close> for each of its entries, and everything else is
  appended under the key itself. \<^verbatim>\<open>append\<close> converts name and value to strings.\<close>

fun entry_pairs :: "string \<times> jsval \<Rightarrow> js_error + (string \<times> string) list" where
  "entry_pairs (key, JArr vs) = Inr (map (\<lambda>v. (key @ ''[]'', to_string v)) vs)"
| "entry_pairs (key, JObj kvs) =
     Inr (map (\<lambda>kv. (key @ ''['' @ fst kv @ '']'', to_string (snd kv))) (object_entries kvs))"
| "entry_pairs (key, JNull) = Inl TypeError"
| "entry_pairs (key, v) = Inr [(key, to_string v)]"


fun append_all :: "(string \<times> jsval) list \<Rightarrow> js_error + (string \<times> string) list" where
  "append_all [] = Inr []"
| "append_all (e # es) =
     (case entry_pairs e of
        Inl err \<Rightarrow> Inl err
      | Inr ps \<Rightarrow> (case append_all es of Inl err \<Rightarrow> Inl err | Inr qs \<Rightarrow> Inr (ps @ qs)))"

definition serializeParameters :: "(string \<times> jsval) list \<Rightarrow> js_error + string" where
  "serializeParameters params =
     (case append_all (object_entries params) of
        Inl err \<Rightarrow> Inl err
      | Inr ps \<Rightarrow> Inr (urlencoded ps))"

section \<open>Reading parsed data\<close>

text \<open>Property reads on parsed data. The names read by this code (\<^verbatim>\<open>data\<close>, \<^verbatim>\<open>id\<close>,
  \<^verbatim>\<open>type\<close>, \<^verbatim>\<open>attributes\<close>, \<^verbatim>\<open>relationships\<close>, \<^verbatim>\<open>fileName\<close>, \<^verbatim>\<open>title\<close> and
  the like) are defined by no prototype, so a read on a primitive or an array gives
  \<^verbatim>\<open>undefined\<close>, and a read on an object gives its own property or \<^verbatim>\<open>undefined\<close>.\<close>

fun field :: "jsval \<Rightarrow> string \<Rightarrow> jsval" where
  "field (JObj kvs) k = (case map_of kvs k of None \<Rightarrow> JUndefined | Some v \<Rightarrow> v)"
| "field v k = JUndefined"

text \<open>\<^verbatim>\<open>v.k\<close>: a TypeError on \<^verbatim>\<open>undefined\<close> and \<^verbatim>\<open>null\<close>.\<close>

definition get :: "jsval \<Rightarrow> string \<Rightarrow> js_error + jsval" where
  "get v k = (if nullish v then Inl TypeError else Inr (field v k))"

text \<open>\<^verbatim>\<open>v?.k\<close>: \<^verbatim>\<open>undefined\<close> on \<^verbatim>\<open>undefined\<close> and \<^verbatim>\<open>null\<close>.\<close>

definition opt :: "jsval \<Rightarrow> string \<Rightarrow> jsval" where
  "opt v k = (if nullish v then JUndefined else field v k)"

definition and_then :: "js_error + 'a \<Rightarrow> ('a \<Rightarrow> js_error + 'b) \<Rightarrow> js_error + 'b" where
  "and_then r f = (case r of Inl e \<Rightarrow> Inl e | Inr v \<Rightarrow> f v)"

text \<open>\<^verbatim>\<open>xs.map(f)\<close> with a callback that may throw: the first exception ends the loop.\<close>

fun map_strict :: "('a \<Rightarrow> js_error + 'b) \<Rightarrow> 'a list \<Rightarrow> js_error + 'b list" where
  "map_strict f [] = Inr []"
| "map_strict f (x # xs) =
     (case f x of
        Inl e \<Rightarrow> Inl e
      | Inr y \<Rightarrow> (case map_strict f xs of Inl e \<Rightarrow> Inl e | Inr ys \<Rightarrow> Inr (y # ys)))"

section \<open>The transport and the world\<close>

text \<open>What the code cannot decide is the environment's: the answer of the network to the
  \<open>i\<close>-th request issued, the time at which the call that issued it settles, the
  double \<^verbatim>\<open>Math.random()\<close> returns for the carousel's offset, and the order in which
  the engine's \<^verbatim>\<open>sort\<close> leaves an array under the carousel's random comparator.

  A double in \<open>[0, 1)\<close> is \<open>m / 2\<^sup>e\<close> for a significand \<open>m < 2\<^sup>5\<^sup>3\<close> and an
  exponent \<open>e\<close> between 53 and 1074, and every such quotient is a double in \<open>[0, 1)\<close>;
  the pair \<open>(m, e)\<close> stands for it. The engine's sort, whatever its algorithm and
  whatever its comparator answers, moves the elements of the array about: the order it
  leaves is given by the exchanges of two positions that produce it.\<close>

datatype cache_hint = NoHint | ForceCache | NoStore | Revalidate nat

record request =
  href :: string
  hint :: cache_hint

text \<open>A response: its status, its status text, its body as bytes, and the body as
  \<^verbatim>\<open>res.json()\<close> parses it (\<open>None\<close> when the body is no JSON). Once \<^verbatim>\<open>fetch\<close> has
  resolved, the body is taken to arrive whole. \<open>Unreachable\<close> is a \<^verbatim>\<open>fetch\<close> that
  rejects.\<close>

record response =
  status :: nat
  statusText :: string
  bytes :: string
  json :: "jsval option"

datatype outcome = Unreachable | Answered response

record env =
  net :: "nat \<Rightarrow> request \<Rightarrow> outcome"
  arrival :: "nat \<Rightarrow> nat"
  random :: "nat \<times> nat"
  exchanges :: "(nat \<times> nat) list"

text \<open>\<^verbatim>\<open>res.ok\<close>: the status is in the range 200 to 299.\<close>

definition ok :: "response \<Rightarrow> bool" where
  "ok r = (200 \<le> status r \<and> status r \<le> 299)"

text \<open>The effects of a call: the requests it issued, in the order of their issue, and the
  lines it wrote with \<^verbatim>\<open>console.error\<close> (the label and the error), in the order of
  their writing, as the console stands once every call that was started has settled.\<close>

type_synonym line = "string \<times> js_error"

record world =
  requests :: "request list"
  console :: "line list"

text \<open>A promise that has settled: the time of its settlement, and the error it rejected
  with or the value it resolved to. Time 0 is before every answer of the network.\<close>

type_synonym 'a promise = "nat \<times> (js_error + 'a)"

definition log_error :: "string \<Rightarrow> js_error \<Rightarrow> world \<Rightarrow> world" where
  "log_error label e w = w\<lparr>console := console w @ [(label, e)]\<rparr>"

definition issue :: "request \<Rightarrow> world \<Rightarrow> world" where
  "issue rq w = w\<lparr>requests := requests w @ [rq]\<rparr>"

section \<open>JSON fetcher\<close>

definition baseUrl :: string where
  "baseUrl = ''https://api.mangadex.org/''"

text \<open>An endpoint that is one plain path segment, made of letters, digits, \<^verbatim>\<open>-\<close> and
  \<^verbatim>\<open>_\<close>, as \<^verbatim>\<open>manga\<close> is, the only endpoint this code calls. \<^verbatim>\<open>new URL\<close> leaves such
  a segment as it is.\<close>

definition plain_segment :: "string \<Rightarrow> bool" where
  "plain_segment endpoint =
     (endpoint \<noteq> [] \<and>
      list_all (\<lambda>c. c \<in> set
        ''ABCDEFGHIJKLMNOPQRSTUVWXYZabcdefghijklmnopqrstuvwxyz0123456789-_'') endpoint)"

text \<open>The URL handed to \<^verbatim>\<open>fetch\<close>, for an endpoint that is a plain segment: the base,
  the endpoint and, when the serialized parameters are not empty, \<^verbatim>\<open>?\<close> and them
  (\<^verbatim>\<open>url.search = ""\<close> leaves no query). An endpoint of any other shape, which
  \<^verbatim>\<open>new URL\<close> would parse and rewrite, is outside the model.\<close>

definition endpoint_url :: "string \<Rightarrow> string \<Rightarrow> string" where
  "endpoint_url endpoint query =
     baseUrl @ endpoint @ (if query = [] then [] else CHR ''?'' # query)"

definition http_error :: "nat \<Rightarrow> js_error" where
  "http_error s = Error (''HTTP error! Status: '' @ show_nat s)"

text \<open>The body of the \<^verbatim>\<open>try\<close> of \<^verbatim>\<open>fetchJson\<close>, on the outcome of \<^verbatim>\<open>fetch\<close>.\<close>

definition read_json :: "outcome \<Rightarrow> js_error + jsval" where
  "read_json out =
     (case out of
        Unreachable \<Rightarrow> Inl NetworkError
      | Answered r \<Rightarrow>
          if \<not> ok r then Inl (http_error (status r))
          else (case json r of None \<Rightarrow> Inl SyntaxError | Some v \<Rightarrow> Inr v))"

text \<open>\<^verbatim>\<open>fetchJson\<close>. The parameters are serialized before the \<^verbatim>\<open>try\<close>, so an exception
  of the serializer rejects the call with neither a request nor a line on the console.
  An exception inside the \<^verbatim>\<open>try\<close> is written to the console and thrown again.\<close>

definition fetchJson ::
  "env \<Rightarrow> string \<Rightarrow> (string \<times> jsval) list \<Rightarrow> cache_hint \<Rightarrow> world \<Rightarrow> jsval promise \<times> world" where
  "fetchJson E endpoint params config w =
     (case serializeParameters params of
        Inl e \<Rightarrow> ((0, Inl e), w)
      | Inr query \<Rightarrow>
          (let rq = \<lparr>href = endpoint_url endpoint query, hint = config\<rparr>;
               i = length (requests w);
               w1 = issue rq w
           in case read_json (net E i rq) of
                Inl e \<Rightarrow> ((Suc (arrival E i), Inl e), log_error ''Fetch error:'' e w1)
              | Inr v \<Rightarrow> ((Suc (arrival E i), Inr v), w1)))"

definition fetchCovers ::
  "env \<Rightarrow> jsval \<Rightarrow> jsval \<Rightarrow> int \<Rightarrow> int \<Rightarrow> world \<Rightarrow> jsval promise \<times> world" where
  "fetchCovers E ids order offset limit w =
     fetchJson E ''manga''
       [(''ids'', ids),
        (''order'', order),
        (''includes'',
           JArr [JStr ''cover_art'', JStr ''author'', JStr ''artist'', JStr ''tag'',
                 JStr ''user'', JStr ''scanlation_group'']),
        (''offset'', JNum offset),
        (''limit'', JNum limit)]
       ForceCache w"

definition fetchLatestChapters :: "env \<Rightarrow> int \<Rightarrow> int \<Rightarrow> world \<Rightarrow> jsval promise \<times> world" where
  "fetchLatestChapters E offset limit w =
     fetchJson E ''manga''
       [(''offset'', JNum offset),
        (''limit'', JNum limit),
        (''order'', JObj [(''updatedAt'', JStr ''desc'')])]
       (Revalidate 60) w"

section \<open>Cover-image fetcher\<close>

definition b64_char :: "nat \<Rightarrow> char" where
  "b64_char n =
     ''ABCDEFGHIJKLMNOPQRSTUVWXYZabcdefghijklmnopqrstuvwxyz0123456789+/'' ! (n mod 64)"

text \<open>\<^verbatim>\<open>Buffer.from(buffer).toString("base64")\<close>.\<close>

fun base64 :: "string \<Rightarrow> string" where
  "base64 [] = []"
| "base64 [a] =
     (let x = of_char a
      in [b64_char (x div 4), b64_char ((x mod 4) * 16), CHR ''='', CHR ''=''])"
| "base64 [a, b] =
     (let x = of_char a; y = of_char b
      in [b64_char (x div 4), b64_char ((x mod 4) * 16 + y div 16),
          b64_char ((y mod 16) * 4), CHR ''=''])"
| "base64 (a # b # c # rest) =
     (let x = of_char a; y = of_char b; z = of_char c
      in [b64_char (x div 4), b64_char ((x mod 4) * 16 + y div 16),
          b64_char ((y mod 16) * 4 + z div 64), b64_char (z mod 64)] @ base64 rest)"

definition image_error :: "response \<Rightarrow> js_error" where
  "image_error r =
     Error (''Failed to fetch image ('' @ show_nat (status r) @ ''): '' @ statusText r)"

definition read_image :: "outcome \<Rightarrow> js_error + string" where
  "read_image out =
     (case out of
        Unreachable \<Rightarrow> Inl NetworkError
      | Answered r \<Rightarrow>
          if \<not> ok r then Inl (image_error r)
          else Inr (''data:image/jpeg;base64,'' @ base64 (bytes r)))"

definition fetchCover :: "env \<Rightarrow> string \<Rightarrow> world \<Rightarrow> string promise \<times> world" where
  "fetchCover E img w =
     (let rq = \<lparr>href = img, hint = ForceCache\<rparr>;
          i = length (requests w);
          w1 = issue rq w
      in case read_image (net E i rq) of
           Inl e \<Rightarrow> ((Suc (arrival E i), Inl e), log_error ''Error fetching image:'' e w1)
         | Inr src \<Rightarrow> ((Suc (arrival E i), Inr src), w1))"

section \<open>Promise.all\<close>

text \<open>An \<^verbatim>\<open>async\<close> callback mapped over an array starts for every element in turn: each
  call runs to its first \<^verbatim>\<open>await\<close>, which is where it issues its request, before the
  next one starts. What a call writes to the console it writes when it settles, so the
  lines of each call are kept with its promise until the calls are awaited.\<close>

fun start_all ::
  "('a \<Rightarrow> world \<Rightarrow> 'b promise \<times> world) \<Rightarrow> 'a list \<Rightarrow> world
     \<Rightarrow> ('b promise \<times> line list) list \<times> world" where
  "start_all f [] w = ([], w)"
| "start_all f (x # xs) w =
     (case f x (w\<lparr>console := []\<rparr>) of
        (p, w1) \<Rightarrow>
          (case start_all f xs (w\<lparr>requests := requests w1\<rparr>) of
             (bs, w2) \<Rightarrow> ((p, console w1) # bs, w2)))"

text \<open>\<^verbatim>\<open>Promise.all\<close> rejects with the rejection that settles first (on equal times, the
  one that comes first in the array) and otherwise resolves to the values in the order of
  the array.\<close>

fun earliest_rejection :: "'a promise list \<Rightarrow> (nat \<times> js_error) option" where
  "earliest_rejection [] = None"
| "earliest_rejection ((t, Inr v) # ps) = earliest_rejection ps"
| "earliest_rejection ((t, Inl e) # ps) =
     (case earliest_rejection ps of
        None \<Rightarrow> Some (t, e)
      | Some (t', e') \<Rightarrow> if t' < t then Some (t', e') else Some (t, e))"

fun fulfilled :: "'a promise list \<Rightarrow> 'a list" where
  "fulfilled [] = []"
| "fulfilled ((t, Inr v) # ps) = v # fulfilled ps"
| "fulfilled ((t, Inl e) # ps) = fulfilled ps"

definition promise_all :: "'a promise list \<Rightarrow> 'a list promise" where
  "promise_all ps =
     (case earliest_rejection ps of
        Some (t, e) \<Rightarrow> (t, Inl e)
      | None \<Rightarrow> (fold max (map fst ps) 0, Inr (fulfilled ps)))"

text \<open>The outer \<^verbatim>\<open>catch\<close> of every aggregator: write the error to the console and throw
  it again.\<close>

definition caught :: "string \<Rightarrow> js_error \<Rightarrow> world \<Rightarrow> (js_error + 'a) \<times> world" where
  "caught label e w = (Inl e, log_error label e w)"

text \<open>The lines of the calls that have settled by time \<open>t\<close>, and of those that settle
  later, each in the order of settling (on equal times, in the order of the array).\<close>

definition written_until :: "nat \<Rightarrow> ('b promise \<times> line list) list \<Rightarrow> line list" where
  "written_until t bs =
     concat (map snd (sort_key (\<lambda>b. fst (fst b)) (filter (\<lambda>b. fst (fst b) \<le> t) bs)))"

definition written_after :: "nat \<Rightarrow> ('b promise \<times> line list) list \<Rightarrow> line list" where
  "written_after t bs =
     concat (map snd (sort_key (\<lambda>b. fst (fst b)) (filter (\<lambda>b. t < fst (fst b)) bs)))"

text \<open>\<^verbatim>\<open>await Promise.all(...)\<close> inside the \<^verbatim>\<open>try\<close> of an aggregator. When the joint
  promise is rejected, the outer \<^verbatim>\<open>catch\<close> runs at once: its line comes after the lines
  of the calls that had settled by then (those that settle in the same turn as the first
  rejection write before the \<^verbatim>\<open>catch\<close> runs) and before the lines of the calls that
  settle later, which run on whatever the fate of the joint promise. When it resolves,
  every call has settled.\<close>

definition await_all ::
  "string \<Rightarrow> ('b promise \<times> line list) list \<Rightarrow> world \<Rightarrow> (js_error + 'b list) \<times> world" where
  "await_all label bs w =
     (case promise_all (map fst bs) of
        (t, Inl e) \<Rightarrow>
          (Inl e,
           w\<lparr>console := console w @ written_until t bs @ [(label, e)] @ written_after t bs\<rparr>)
      | (t, Inr vs) \<Rightarrow> (Inr vs, w\<lparr>console := console w @ written_until t bs\<rparr>))"

section \<open>Aggregators\<close>

subsection \<open>Latest and Search\<close>

text \<open>\<^verbatim>\<open>latest?.data.map((k) => k.id)\<close>: \<^verbatim>\<open>undefined\<close> when the collection is absent, a
  TypeError when its \<^verbatim>\<open>data\<close> is no array or one of its elements is absent.\<close>

definition entity_ids :: "jsval \<Rightarrow> js_error + jsval" where
  "entity_ids col =
     (if nullish col then Inr JUndefined
      else (case field col ''data'' of
              JArr ks \<Rightarrow>
                (case map_strict (\<lambda>k. get k ''id'') ks of
                   Inl e \<Rightarrow> Inl e
                 | Inr ids \<Rightarrow> Inr (JArr ids))
            | _ \<Rightarrow> Inl TypeError))"

text \<open>The elements the callback is mapped over in
  \<^verbatim>\<open>covers?.data?.map(...) || []\<close>: none when the collection or its \<^verbatim>\<open>data\<close> is
  absent.\<close>

definition cover_items :: "jsval \<Rightarrow> js_error + jsval list" where
  "cover_items covers =
     (case opt covers ''data'' of
        JUndefined \<Rightarrow> Inr []
      | JNull \<Rightarrow> Inr []
      | JArr ks \<Rightarrow> Inr ks
      | _ \<Rightarrow> Inl TypeError)"

text \<open>\<^verbatim>\<open>ts.find((t) => t?.type === "cover_art")\<close>: the first such element, or
  \<^verbatim>\<open>undefined\<close>.\<close>

definition find_cover_art :: "jsval list \<Rightarrow> jsval" where
  "find_cover_art ts =
     (case List.find (\<lambda>t. opt t ''type'' = JStr ''cover_art'') ts of
        None \<Rightarrow> JUndefined
      | Some t \<Rightarrow> t)"

text \<open>\<^verbatim>\<open>k?.relationships?.find(...)?.attributes?.fileName\<close>.\<close>

definition cover_file :: "jsval \<Rightarrow> js_error + jsval" where
  "cover_file k =
     (case opt k ''relationships'' of
        JUndefined \<Rightarrow> Inr JUndefined
      | JNull \<Rightarrow> Inr JUndefined
      | JArr ts \<Rightarrow> Inr (opt (opt (find_cover_art ts) ''attributes'') ''fileName'')
      | _ \<Rightarrow> Inl TypeError)"

text \<open>The template literal of the cover's address.\<close>

definition cover_url :: "jsval \<Rightarrow> jsval \<Rightarrow> string" where
  "cover_url mid file =
     ''https://uploads.mangadex.org/covers/'' @ to_string mid @ ''/'' @ to_string file
     @ ''.256.jpg''"

record manga_view =
  v_id :: jsval
  v_updatedAt :: jsval
  v_cover :: string
  v_title :: jsval

text \<open>\<^verbatim>\<open>k?.attributes?.title?.en || k?.attributes?.title?.["ja-ro"] || k?.attributes?.title?.ja\<close>.\<close>

definition view_title :: "jsval \<Rightarrow> jsval" where
  "view_title k =
     (let t = opt (opt k ''attributes'') ''title''
      in js_or (js_or (opt t ''en'') (opt t ''ja-ro'')) (opt t ''ja''))"

text \<open>The \<^verbatim>\<open>async\<close> callback of \<^verbatim>\<open>getLatestManga\<close> and \<^verbatim>\<open>searchManga\<close> (the same text
  in both) on one element.\<close>

definition view_item :: "env \<Rightarrow> jsval \<Rightarrow> world \<Rightarrow> manga_view promise \<times> world" where
  "view_item E k w =
     (case cover_file k of
        Inl e \<Rightarrow> ((0, Inl e), w)
      | Inr file \<Rightarrow>
          (case fetchCover E (cover_url (opt k ''id'') file) w of
             ((t, Inl e), w1) \<Rightarrow> ((t, Inl e), w1)
           | ((t, Inr src), w1) \<Rightarrow>
               ((t, Inr \<lparr>v_id = opt k ''id'',
                         v_updatedAt = opt (opt k ''attributes'') ''updatedAt'',
                         v_cover = src,
                         v_title = view_title k\<rparr>), w1)))"

text \<open>The body of the \<^verbatim>\<open>try\<close> after the listing call, which \<^verbatim>\<open>getLatestManga\<close> and
  \<^verbatim>\<open>searchManga\<close> share word for word, with their \<^verbatim>\<open>catch\<close> (both write the label
  \<^verbatim>\<open>Error in getLatestManga:\<close>).\<close>

definition with_covers ::
  "env \<Rightarrow> jsval promise \<times> world \<Rightarrow> (js_error + manga_view list) \<times> world" where
  "with_covers E listing =
     (case listing of
        ((t1, Inl e), w1) \<Rightarrow> caught ''Error in getLatestManga:'' e w1
      | ((t1, Inr listed), w1) \<Rightarrow>
          (case entity_ids listed of
             Inl e \<Rightarrow> caught ''Error in getLatestManga:'' e w1
           | Inr ids \<Rightarrow>
               (case fetchCovers E ids (JObj [(''updatedAt'', JStr ''desc'')]) 0 100 w1 of
                  ((t2, Inl e), w2) \<Rightarrow> caught ''Error in getLatestManga:'' e w2
                | ((t2, Inr covers), w2) \<Rightarrow>
                    (case cover_items covers of
                       Inl e \<Rightarrow> caught ''Error in getLatestManga:'' e w2
                     | Inr ks \<Rightarrow>
                         (case start_all (view_item E) ks w2 of
                            (bs, w3) \<Rightarrow> await_all ''Error in getLatestManga:'' bs w3)))))"

definition getLatestManga :: "env \<Rightarrow> world \<Rightarrow> (js_error + manga_view list) \<times> world" where
  "getLatestManga E w = with_covers E (fetchLatestChapters E 0 60 w)"

definition searchManga ::
  "env \<Rightarrow> string \<Rightarrow> world \<Rightarrow> (js_error + manga_view list) \<times> world" where
  "searchManga E search w =
     with_covers E (fetchJson E ''manga'' [(''title'', JStr search)] NoHint w)"

subsection \<open>Carousel\<close>

text \<open>\<^verbatim>\<open>req?.data?.map((m) => m?.id)\<close>.\<close>

definition carousel_ids :: "jsval \<Rightarrow> js_error + jsval" where
  "carousel_ids req =
     (case opt req ''data'' of
        JUndefined \<Rightarrow> Inr JUndefined
      | JNull \<Rightarrow> Inr JUndefined
      | JArr ms \<Rightarrow> Inr (JArr (map (\<lambda>m. opt m ''id'') ms))
      | _ \<Rightarrow> Inl TypeError)"

text \<open>The array as the engine's \<^verbatim>\<open>sort\<close> leaves it: the exchanges of this run, made
  one after the other (an exchange that names a position outside the array does
  nothing).\<close>

definition exchange :: "nat \<times> nat \<Rightarrow> 'a list \<Rightarrow> 'a list" where
  "exchange ij xs =
     (case ij of
        (i, j) \<Rightarrow> if i < length xs \<and> j < length xs then xs[i := xs ! j, j := xs ! i] else xs)"

definition engine_sort :: "env \<Rightarrow> 'a list \<Rightarrow> 'a list" where
  "engine_sort E xs = fold exchange (exchanges E) xs"

text \<open>\<^verbatim>\<open>getRandomManga\<close>: \<^verbatim>\<open>mangaData?.data?.sort(() => Math.random() - 0.5)\<close>, then
  \<^verbatim>\<open>slice(0, count)\<close> of the result, a TypeError when there is nothing to slice.\<close>

definition getRandomManga :: "env \<Rightarrow> jsval \<Rightarrow> nat \<Rightarrow> js_error + jsval list" where
  "getRandomManga E mangaData count' =
     (case opt mangaData ''data'' of
        JArr ms \<Rightarrow> Inr (take count' (engine_sort E ms))
      | _ \<Rightarrow> Inl TypeError)"

record carousel_view =
  c_id :: jsval
  c_tags :: jsval
  c_cover :: string
  c_title :: jsval
  c_contentRating :: jsval
  c_publicationDemographic :: jsval
  c_status :: jsval
  c_description :: jsval
  c_type :: jsval

text \<open>\<^verbatim>\<open>ts.find((t) => t.type === "cover_art")\<close>, whose callback reads \<^verbatim>\<open>t.type\<close> with no
  guard.\<close>

fun find_cover_art_strict :: "jsval list \<Rightarrow> js_error + jsval" where
  "find_cover_art_strict [] = Inr JUndefined"
| "find_cover_art_strict (t # ts) =
     (case get t ''type'' of
        Inl e \<Rightarrow> Inl e
      | Inr ty \<Rightarrow> if ty = JStr ''cover_art'' then Inr t else find_cover_art_strict ts)"

text \<open>\<^verbatim>\<open>manga.relationships.find(...).attributes.fileName\<close>.\<close>

definition carousel_file :: "jsval \<Rightarrow> js_error + jsval" where
  "carousel_file m =
     and_then (get m ''relationships'') (\<lambda>rels.
       (case rels of
          JArr ts \<Rightarrow>
            and_then (find_cover_art_strict ts) (\<lambda>found.
            and_then (get found ''attributes'') (\<lambda>a. get a ''fileName''))
        | _ \<Rightarrow> Inl TypeError))"

text \<open>What the callback of \<^verbatim>\<open>Carousel\<close> evaluates before its \<^verbatim>\<open>await\<close>: \<^verbatim>\<open>manga.id\<close>,
  \<^verbatim>\<open>manga.attributes.tags\<close> and the cover's address.\<close>

definition carousel_before :: "jsval \<Rightarrow> js_error + (jsval \<times> jsval \<times> string)" where
  "carousel_before m =
     and_then (get m ''id'') (\<lambda>mid.
     and_then (get m ''attributes'') (\<lambda>attrs.
     and_then (get attrs ''tags'') (\<lambda>tags.
     and_then (carousel_file m) (\<lambda>file.
       Inr (mid, tags, cover_url mid file)))))"

text \<open>\<^verbatim>\<open>manga.attributes.title.en || manga?.attributes?.title?.["ja-ro"]\<close>.\<close>

definition carousel_title :: "jsval \<Rightarrow> js_error + jsval" where
  "carousel_title m =
     and_then (get m ''attributes'') (\<lambda>attrs.
     and_then (get attrs ''title'') (\<lambda>title.
     and_then (get title ''en'') (\<lambda>en.
       Inr (js_or en (opt (opt (opt m ''attributes'') ''title'') ''ja-ro'')))))"

text \<open>What the callback evaluates after its \<^verbatim>\<open>await\<close>.\<close>

definition carousel_after ::
  "jsval \<Rightarrow> jsval \<Rightarrow> jsval \<Rightarrow> string \<Rightarrow> js_error + carousel_view" where
  "carousel_after m mid tags src =
     and_then (carousel_title m) (\<lambda>title.
     and_then (get m ''attributes'') (\<lambda>attrs.
     and_then (get attrs ''description'') (\<lambda>descr.
     and_then (get descr ''en'') (\<lambda>descr_en.
       Inr \<lparr>c_id = mid,
            c_tags = tags,
            c_cover = src,
            c_title = title,
            c_contentRating = field attrs ''contentRating'',
            c_publicationDemographic = field attrs ''publicationDemographic'',
            c_status = field attrs ''status'',
            c_description = descr_en,
            c_type = field m ''type''\<rparr>))))"

definition carousel_item :: "env \<Rightarrow> jsval \<Rightarrow> world \<Rightarrow> carousel_view promise \<times> world" where
  "carousel_item E m w =
     (case carousel_before m of
        Inl e \<Rightarrow> ((0, Inl e), w)
      | Inr (mid, tags, url) \<Rightarrow>
          (case fetchCover E url w of
             ((t, Inl e), w1) \<Rightarrow> ((t, Inl e), w1)
           | ((t, Inr src), w1) \<Rightarrow> ((t, carousel_after m mid tags src), w1)))"

text \<open>The number of binary digits of a natural number.\<close>

fun bit_length :: "nat \<Rightarrow> nat" where
  "bit_length n = (if n = 0 then 0 else Suc (bit_length (n div 2)))"

declare bit_length.simps [simp del]

text \<open>Rounding to a double, as every arithmetic operation on doubles does: the nearest
  number with at most 53 significant binary digits, the even one of two that are equally
  near. The argument counts units of \<open>2\<^sup>-\<^sup>e\<close>, and so does the result.\<close>

definition round_to_53 :: "nat \<Rightarrow> nat" where
  "round_to_53 n =
     (let s = bit_length n - 53; q = n div 2 ^ s; r = n mod 2 ^ s
      in if s = 0 then n
         else if 2 * r < 2 ^ s \<or> (2 * r = 2 ^ s \<and> even q) then q * 2 ^ s
         else (q + 1) * 2 ^ s)"

text \<open>\<^verbatim>\<open>Math.floor(Math.random() * 200)\<close>: the product of the double \<open>m / 2\<^sup>e\<close> and 200
  is \<open>200 m\<close> units of \<open>2\<^sup>-\<^sup>e\<close>, rounded to a double; its floor is the number of whole
  \<open>2\<^sup>e\<close> units in it.\<close>

definition randomOffset :: "env \<Rightarrow> int" where
  "randomOffset E =
     (case random E of (m, e) \<Rightarrow> int (round_to_53 (m * 200) div 2 ^ e))"

definition carousel_params :: "int \<Rightarrow> (string \<times> jsval) list" where
  "carousel_params n =
     [(''offset'', JNum n),
      (''limit'', JNum 20),
      (''order'', JObj [(''followedCount'', JStr ''desc''), (''rating'', JStr ''desc'')])]"

definition Carousel :: "env \<Rightarrow> world \<Rightarrow> (js_error + carousel_view list) \<times> world" where
  "Carousel E w =
     (case fetchJson E ''manga'' (carousel_params (randomOffset E)) NoStore w of
        ((t1, Inl e), w1) \<Rightarrow> caught ''Error in Carousel:'' e w1
      | ((t1, Inr req), w1) \<Rightarrow>
          (case carousel_ids req of
             Inl e \<Rightarrow> caught ''Error in Carousel:'' e w1
           | Inr mangaIds \<Rightarrow>
               (case fetchCovers E mangaIds (JObj []) 0 100 w1 of
                  ((t2, Inl e), w2) \<Rightarrow> caught ''Error in Carousel:'' e w2
                | ((t2, Inr manga), w2) \<Rightarrow>
                    (case getRandomManga E manga 6 of
                       Inl e \<Rightarrow> caught ''Error in Carousel:'' e w2
                     | Inr selectedManga \<Rightarrow>
                         (case start_all (carousel_item E) selectedManga w2 of
                            (bs, w3) \<Rightarrow> await_all ''Error in Carousel:'' bs w3)))))"

subsection \<open>Top listings\<close>

record top_listings =
  popular :: jsval
  topRated :: jsval
  topRead :: jsval

definition ranked_params :: "string \<Rightarrow> (string \<times> jsval) list" where
  "ranked_params rank = [(''limit'', JNum 10), (''order'', JObj [(rank, JStr ''desc'')])]"

text \<open>\<^verbatim>\<open>req.data.map((manga) => manga.id)\<close>, with no guard at all.\<close>

definition ranked_ids :: "jsval \<Rightarrow> js_error + jsval" where
  "ranked_ids req =
     and_then (get req ''data'') (\<lambda>d.
       (case d of
          JArr ms \<Rightarrow>
            (case map_strict (\<lambda>m. get m ''id'') ms of
               Inl e \<Rightarrow> Inl e
             | Inr ids \<Rightarrow> Inr (JArr ids))
        | _ \<Rightarrow> Inl TypeError))"

text \<open>\<^verbatim>\<open>await fetchCovers(req.data.map(...))\<close>, one list after the other. \<^verbatim>\<open>Promise.all\<close>
  of three promises resolves to three values, so the last case of \<open>top_covers\<close> is
  never reached.\<close>

definition ranked_covers :: "env \<Rightarrow> jsval \<Rightarrow> world \<Rightarrow> (js_error + jsval) \<times> world" where
  "ranked_covers E req w =
     (case ranked_ids req of
        Inl e \<Rightarrow> (Inl e, w)
      | Inr ids \<Rightarrow> (case fetchCovers E ids (JObj []) 0 100 w of ((t, r), w1) \<Rightarrow> (r, w1)))"

definition top_result :: "jsval \<Rightarrow> jsval \<Rightarrow> jsval \<Rightarrow> js_error + top_listings" where
  "top_result p r d =
     and_then (get p ''data'') (\<lambda>pd.
     and_then (get r ''data'') (\<lambda>rd.
     and_then (get d ''data'') (\<lambda>dd.
       Inr \<lparr>popular = pd, topRated = rd, topRead = dd\<rparr>)))"

definition top_covers ::
  "env \<Rightarrow> jsval list \<Rightarrow> world \<Rightarrow> (js_error + top_listings) \<times> world" where
  "top_covers E reqs w =
     (case reqs of
        [reqTopFollowed, reqTopRated, reqTopRead] \<Rightarrow>
          (case ranked_covers E reqTopFollowed w of
             (Inl e, w1) \<Rightarrow> (Inl e, w1)
           | (Inr p, w1) \<Rightarrow>
               (case ranked_covers E reqTopRated w1 of
                  (Inl e, w2) \<Rightarrow> (Inl e, w2)
                | (Inr r, w2) \<Rightarrow>
                    (case ranked_covers E reqTopRead w2 of
                       (Inl e, w3) \<Rightarrow> (Inl e, w3)
                     | (Inr d, w3) \<Rightarrow> (top_result p r d, w3))))
      | _ \<Rightarrow> (Inl TypeError, w))"

text \<open>The three listing calls are made one after the other, each issuing its request,
  before \<^verbatim>\<open>Promise.all\<close> waits for the three of them.\<close>

definition top_requests ::
  "env \<Rightarrow> world \<Rightarrow> (jsval promise \<times> line list) list \<times> world" where
  "top_requests E w =
     start_all (\<lambda>rank. fetchJson E ''manga'' (ranked_params rank) NoHint)
       [''followedCount'', ''rating'', ''readingProgress''] w"

definition fetchTopListings :: "env \<Rightarrow> world \<Rightarrow> (js_error + top_listings) \<times> world" where
  "fetchTopListings E w =
     (case top_requests E w of
        (bs, w1) \<Rightarrow>
          (case await_all ''Error in fetchTopListings:'' bs w1 of
             (Inl e, w2) \<Rightarrow> (Inl e, w2)
           | (Inr reqs, w2) \<Rightarrow>
               (case top_covers E reqs w2 of
                  (Inl e, w3) \<Rightarrow> caught ''Error in fetchTopListings:'' e w3
                | (Inr res, w3) \<Rightarrow> (Inr res, w3))))"

section \<open>Auxiliary notions for the proofs\<close>

text \<open>The line a \<^verbatim>\<open>catch\<close> writes for a settled call: one when it was rejected, none
  otherwise.\<close>

definition rejected_line :: "string \<Rightarrow> js_error + 'a \<Rightarrow> (string \<times> js_error) list" where
  "rejected_line label a = (case a of Inl e \<Rightarrow> [(label, e)] | Inr v \<Rightarrow> [])"

text \<open>The listing request of each aggregator, written out: the address that
  \<^verbatim>\<open>fetchJson\<close> builds from the aggregator's parameters (shown below to be the one it
  issues) and the cache hint the aggregator passes.\<close>

abbreviation latest_request :: request where
  "latest_request \<equiv>
     \<lparr>href = ''https://api.mangadex.org/manga?offset=0&limit=60&order%5BupdatedAt%5D=desc'',
      hint = Revalidate 60\<rparr>"

abbreviation search_request :: "string \<Rightarrow> request" where
  "search_request search \<equiv>
     \<lparr>href = ''https://api.mangadex.org/manga?title='' @ form_encode search, hint = NoHint\<rparr>"

abbreviation carousel_request :: "int \<Rightarrow> request" where
  "carousel_request n \<equiv>
     \<lparr>href = ''https://api.mangadex.org/manga?offset='' @ show_int n
              @ ''&limit=20&order%5BfollowedCount%5D=desc&order%5Brating%5D=desc'',
      hint = NoStore\<rparr>"

abbreviation ranked_request :: "string \<Rightarrow> request" where
  "ranked_request rank \<equiv>
     \<lparr>href = ''https://api.mangadex.org/manga?limit=10&order%5B'' @ rank @ ''%5D=desc'',
      hint = NoHint\<rparr>"

abbreviation ranked_requests :: "request list" where
  "ranked_requests \<equiv>
     [ranked_request ''followedCount'', ranked_request ''rating'',
      ranked_request ''readingProgress'']"

section \<open>Properties of the query serializer\<close>

lemmas serializer_defs =
  serializeParameters_def object_entries_def is_array_index_def nat_of_digits_def digit_val_def
  urlencoded_def form_pair_def form_encode_def form_byte_def form_safe_def hex_char_def












lemma serialize_order_example:
  "serializeParameters [(''order'', JObj [(''updatedAt'', JStr ''desc'')])]
     = Inr ''order%5BupdatedAt%5D=desc''"
  by (simp add: serializer_defs)




text \<open>
  Claim C8. On the empty parameter mapping the serializer raises nothing and returns the
  empty string; \<^verbatim>\<open>fetchJson\<close> called with no parameters on a plain endpoint such as
  \<^verbatim>\<open>manga\<close> therefore gets past the serializer and issues its request, to the
  endpoint's address with no query part.
\<close>

theorem serialize_empty:
  "serializeParameters [] = Inr []
   \<and> (plain_segment endpoint \<longrightarrow>
        requests (snd (fetchJson E endpoint [] config w))
          = requests w @ [\<lparr>href = baseUrl @ endpoint, hint = config\<rparr>])"
  by (simp add: serializeParameters_def object_entries_def urlencoded_def fetchJson_def
      endpoint_url_def issue_def log_error_def Let_def split: sum.splits)

theorem serialize_empty_witness:
  "plain_segment ''manga''
   \<and> requests (snd (fetchJson
        \<lparr>net = (\<lambda>i rq. Unreachable), arrival = (\<lambda>i. i), random = (0, 53), exchanges = []\<rparr>
        ''manga'' [] NoHint \<lparr>requests = [], console = []\<rparr>))
     = [\<lparr>href = ''https://api.mangadex.org/manga'', hint = NoHint\<rparr>]"
  using serialize_empty
    [of "''manga''"
        "\<lparr>net = (\<lambda>i rq. Unreachable), arrival = (\<lambda>i. i), random = (0, 53), exchanges = []\<rparr>"
        NoHint "\<lparr>requests = [], console = []\<rparr>"]
  by (simp add: plain_segment_def baseUrl_def)

section \<open>The fetcher and the listing requests\<close>


lemma show_nat_digits: "set (show_nat n) \<subseteq> set ''0123456789''"
proof (induction n rule: show_nat.induct)
  case (1 n)
  have d: "digit_char k \<in> set ''0123456789''" for k
  proof -
    have "k mod 10 < length ''0123456789''" by simp
    then show ?thesis unfolding digit_char_def by (rule nth_mem)
  qed
  show ?case
  proof (cases "n < 10")
    case True
    then show ?thesis using d [of n] by (subst show_nat.simps) simp
  next
    case False
    then show ?thesis using 1 d [of "n mod 10"] by (subst show_nat.simps) simp
  qed
qed

lemma form_encode_safe:
  "\<forall>c \<in> set s. form_safe c \<Longrightarrow> form_encode s = s"
proof (induction s)
  case Nil
  then show ?case by (simp add: form_encode_def)
next
  case (Cons c s)
  then have "form_safe c" by simp
  then have "c \<noteq> CHR '' ''" by (auto simp: form_safe_def)
  with Cons show ?case by (simp add: form_encode_def form_byte_def)
qed

lemma form_encode_append: "form_encode (a @ b) = form_encode a @ form_encode b"
  by (simp add: form_encode_def)

lemma form_encode_show_int: "form_encode (show_int n) = show_int n"
proof -
  have "list_all form_safe ''0123456789''"
    by (simp add: form_safe_def)
  then have digits: "c \<in> set ''0123456789'' \<Longrightarrow> form_safe c" for c
    unfolding list_all_iff by blast
  have nat: "c \<in> set (show_nat k) \<Longrightarrow> form_safe c" for k c
    using show_nat_digits [of k] digits by blast
  have "form_safe c" if "c \<in> set (show_int n)" for c
  proof (cases "n < 0")
    case True
    with that have "c = CHR ''-'' \<or> c \<in> set (show_nat (nat (- n)))"
      by (simp add: show_int_def)
    moreover have "form_safe CHR ''-''"
      by (simp add: form_safe_def)
    ultimately show ?thesis using nat by blast
  next
    case False
    with that have "c \<in> set (show_nat (nat n))"
      by (simp add: show_int_def)
    then show ?thesis by (rule nat)
  qed
  then show ?thesis by (intro form_encode_safe) blast
qed

lemma latest_query:
  "serializeParameters [(''offset'', JNum 0), (''limit'', JNum 60), (''order'', JObj [(''updatedAt'', JStr ''desc'')])]
     = Inr ''offset=0&limit=60&order%5BupdatedAt%5D=desc''"
  by (simp add: serializer_defs show_int_def show_nat.simps digit_char_def)

lemma search_query:
  "serializeParameters [(''title'', JStr search)] = Inr (''title='' @ form_encode search)"
  by (simp add: serializer_defs)

lemma carousel_query:
  "serializeParameters (carousel_params n)
     = Inr (''offset='' @ show_int n @ ''&limit=20&order%5BfollowedCount%5D=desc&order%5Brating%5D=desc'')"
proof -
  have "append_all (object_entries (carousel_params n))
          = Inr [(''offset'', show_int n), (''limit'', ''20''),
                 (''order[followedCount]'', ''desc''), (''order[rating]'', ''desc'')]"
    by (simp add: carousel_params_def object_entries_def is_array_index_def show_int_def
        show_nat.simps digit_char_def)
  moreover have "urlencoded [(''offset'', show_int n), (''limit'', ''20''),
                 (''order[followedCount]'', ''desc''), (''order[rating]'', ''desc'')]
      = ''offset='' @ show_int n @ ''&limit=20&order%5BfollowedCount%5D=desc&order%5Brating%5D=desc''"
    unfolding urlencoded_def form_pair_def
    by (simp add: form_encode_show_int) (simp add: form_encode_def form_byte_def form_safe_def hex_char_def)
  ultimately show ?thesis by (simp add: serializeParameters_def)
qed

lemma fetchJson_settled:
  assumes "serializeParameters params = Inr q"
  shows "fetchJson E endpoint params config w =
     ((Suc (arrival E (length (requests w))),
       read_json (net E (length (requests w)) \<lparr>href = endpoint_url endpoint q, hint = config\<rparr>)),
      w\<lparr>requests := requests w @ [\<lparr>href = endpoint_url endpoint q, hint = config\<rparr>],
         console := console w @ rejected_line ''Fetch error:''
           (read_json (net E (length (requests w)) \<lparr>href = endpoint_url endpoint q, hint = config\<rparr>))\<rparr>)"
  using assms
  by (simp add: fetchJson_def Let_def issue_def log_error_def rejected_line_def split: sum.splits)

lemma manga_url: "endpoint_url ''manga'' (c # q) = ''https://api.mangadex.org/manga?'' @ c # q"
  by (simp add: endpoint_url_def baseUrl_def)

lemma ranked_query:
  "rank \<in> {''followedCount'', ''rating'', ''readingProgress''} \<Longrightarrow>
   serializeParameters (ranked_params rank) = Inr (''limit=10&order%5B'' @ rank @ ''%5D=desc'')"
  by (auto simp: ranked_params_def serializer_defs show_int_def show_nat.simps digit_char_def)


lemma fetchLatestChapters_settled:
  "fetchLatestChapters E 0 60 w =
     ((Suc (arrival E (length (requests w))), read_json (net E (length (requests w)) latest_request)),
      w\<lparr>requests := requests w @ [latest_request],
         console := console w @ rejected_line ''Fetch error:''
           (read_json (net E (length (requests w)) latest_request))\<rparr>)"
  by (simp add: fetchLatestChapters_def fetchJson_settled [OF latest_query] manga_url)

lemma search_settled:
  "fetchJson E ''manga'' [(''title'', JStr search)] NoHint w =
     ((Suc (arrival E (length (requests w))),
       read_json (net E (length (requests w)) (search_request search))),
      w\<lparr>requests := requests w @ [search_request search],
         console := console w @ rejected_line ''Fetch error:''
           (read_json (net E (length (requests w)) (search_request search)))\<rparr>)"
  by (simp add: fetchJson_settled [OF search_query] manga_url)

lemma carousel_settled:
  "fetchJson E ''manga'' (carousel_params n) NoStore w =
     ((Suc (arrival E (length (requests w))),
       read_json (net E (length (requests w)) (carousel_request n))),
      w\<lparr>requests := requests w @ [carousel_request n],
         console := console w @ rejected_line ''Fetch error:''
           (read_json (net E (length (requests w)) (carousel_request n)))\<rparr>)"
  by (simp add: fetchJson_settled [OF carousel_query] manga_url)

lemma ranked_settled:
  assumes "rank \<in> {''followedCount'', ''rating'', ''readingProgress''}"
  shows "fetchJson E ''manga'' (ranked_params rank) NoHint w =
     ((Suc (arrival E (length (requests w))),
       read_json (net E (length (requests w)) (ranked_request rank))),
      w\<lparr>requests := requests w @ [ranked_request rank],
         console := console w @ rejected_line ''Fetch error:''
           (read_json (net E (length (requests w)) (ranked_request rank)))\<rparr>)"
  by (simp add: fetchJson_settled [OF ranked_query [OF assms]] manga_url)

lemma top_requests_settled:
  "top_requests E w =
     ([((Suc (arrival E (length (requests w))),
         read_json (net E (length (requests w)) (ranked_request ''followedCount''))),
        rejected_line ''Fetch error:''
          (read_json (net E (length (requests w)) (ranked_request ''followedCount'')))),
       ((Suc (arrival E (length (requests w) + 1)),
         read_json (net E (length (requests w) + 1) (ranked_request ''rating''))),
        rejected_line ''Fetch error:''
          (read_json (net E (length (requests w) + 1) (ranked_request ''rating'')))),
       ((Suc (arrival E (length (requests w) + 2)),
         read_json (net E (length (requests w) + 2) (ranked_request ''readingProgress''))),
        rejected_line ''Fetch error:''
          (read_json (net E (length (requests w) + 2) (ranked_request ''readingProgress''))))],
      w\<lparr>requests := requests w @ ranked_requests\<rparr>)"
  by (simp add: top_requests_def ranked_settled)




section \<open>Settling of joint promises\<close>

lemma earliest_rejection_None:
  "earliest_rejection ps = None \<longleftrightarrow> (\<forall>p \<in> set ps. \<exists>v. snd p = Inr v)"
  by (induction ps rule: earliest_rejection.induct) (auto split: option.splits)

lemma earliest_rejection_Some:
  "earliest_rejection ps = Some (t, e) \<Longrightarrow> (t, Inl e) \<in> set ps"
  by (induction ps arbitrary: t e rule: earliest_rejection.induct)
    (auto split: option.splits if_splits)

lemma fulfilled_all:
  "\<forall>p \<in> set ps. \<exists>v. snd p = Inr v \<Longrightarrow> map snd ps = map Inr (fulfilled ps)"
  by (induction ps rule: fulfilled.induct) auto

lemma promise_all_rejects:
  assumes "(t, Inl e) \<in> set ps"
  shows "\<exists>t' e'. promise_all ps = (t', Inl e') \<and> (t', Inl e') \<in> set ps"
proof (cases "earliest_rejection ps")
  case None
  with assms show ?thesis by (force simp: earliest_rejection_None)
next
  case (Some te)
  then show ?thesis
    by (cases te) (auto simp: promise_all_def dest: earliest_rejection_Some)
qed

lemma promise_all_resolves:
  assumes "\<forall>p \<in> set ps. \<exists>v. snd p = Inr v"
  shows "snd (promise_all ps) = Inr (fulfilled ps)"
  using assms by (simp add: promise_all_def earliest_rejection_None [THEN iffD2])


lemma written_until_member:
  assumes "b \<in> set bs" and "fst (fst b) \<le> t" and "l \<in> set (snd b)"
  shows "l \<in> set (written_until t bs)"
proof -
  obtain a r ls where b: "b = ((a, r), ls)" by (metis prod.collapse)
  with assms have "((a, r), ls) \<in> set bs" "a \<le> t" "l \<in> set ls" by simp_all
  then show ?thesis by (auto simp: written_until_def)
qed

lemma await_all_rejected:
  assumes "promise_all (map fst bs) = (t, Inl e)"
  shows "await_all label bs w =
    (Inl e, w\<lparr>console := console w @ written_until t bs @ [(label, e)] @ written_after t bs\<rparr>)"
  using assms by (simp add: await_all_def)

lemma await_all_resolved:
  assumes "promise_all (map fst bs) = (t, Inr vs)"
  shows "await_all label bs w = (Inr vs, w\<lparr>console := console w @ written_until t bs\<rparr>)"
  using assms by (simp add: await_all_def)

lemma fetchTopListings_rejected:
  assumes "top_requests E w = (bs, w1)" and "promise_all (map fst bs) = (t, Inl e)"
  shows "fetchTopListings E w =
    (Inl e,
     w1\<lparr>console := console w1 @ written_until t bs
         @ [(''Error in fetchTopListings:'', e)] @ written_after t bs\<rparr>)"
  using assms by (simp add: fetchTopListings_def await_all_rejected)

lemma top_branches:
  "fst (top_requests E w) =
     map (\<lambda>i. ((Suc (arrival E (length (requests w) + i)),
                 read_json (net E (length (requests w) + i) (ranked_requests ! i))),
                rejected_line ''Fetch error:''
                  (read_json (net E (length (requests w) + i) (ranked_requests ! i))))) [0..<3]"
proof -
  have "[0..<3] = [0, Suc 0, Suc (Suc 0)]"
    by (simp add: numeral_3_eq_3)
  then show ?thesis
    by (simp add: top_requests_settled)
qed

lemma top_world:
  "requests (snd (top_requests E w)) = requests w @ ranked_requests"
  "console (snd (top_requests E w)) = console w"
  by (simp_all add: top_requests_settled)

text \<open>When one of the three listing calls is rejected, so is the whole call, with the
  error of a rejected listing call; the console holds that call's own line, then the line
  of the outer \<^verbatim>\<open>catch\<close>, and the three listing requests are all that was issued.\<close>

lemma top_rejected:
  assumes bs: "top_requests E w = (bs, w1)"
    and pa: "promise_all (map fst bs) = (t, Inl e)"
  shows "fst (fetchTopListings E w) = Inl e
     \<and> requests (snd (fetchTopListings E w)) = requests w @ ranked_requests
     \<and> (\<exists>pre post. console (snd (fetchTopListings E w))
            = console w @ pre @ [(''Error in fetchTopListings:'', e)] @ post
          \<and> (''Fetch error:'', e) \<in> set pre)
     \<and> (\<exists>k<3. read_json (net E (length (requests w) + k) (ranked_requests ! k)) = Inl e)"
proof -
  have res: "fetchTopListings E w =
    (Inl e,
     w1\<lparr>console := console w1 @ written_until t bs
         @ [(''Error in fetchTopListings:'', e)] @ written_after t bs\<rparr>)"
    by (rule fetchTopListings_rejected [OF bs pa])
  have w1: "requests w1 = requests w @ ranked_requests" "console w1 = console w"
    using top_world [of E w] bs by simp_all
  have bs_eq: "bs = map (\<lambda>i. ((Suc (arrival E (length (requests w) + i)),
                 read_json (net E (length (requests w) + i) (ranked_requests ! i))),
                rejected_line ''Fetch error:''
                  (read_json (net E (length (requests w) + i) (ranked_requests ! i))))) [0..<3]"
    using top_branches [of E w] bs by simp
  have "(t, Inl e) \<in> set (map fst bs)"
    using pa promise_all_rejects [of _ _ "map fst bs"]
    by (cases "earliest_rejection (map fst bs)")
      (auto simp: promise_all_def dest: earliest_rejection_Some)
  then obtain k where k: "k < 3" and tk: "t = Suc (arrival E (length (requests w) + k))"
    and ek: "read_json (net E (length (requests w) + k) (ranked_requests ! k)) = Inl e"
    unfolding bs_eq by (auto simp del: upt_Suc)
  have "((t, Inl e), [(''Fetch error:'', e)]) \<in> set bs"
    unfolding bs_eq using k tk ek
    by (auto simp del: upt_Suc simp: rejected_line_def intro!: image_eqI [where x = k])
  then have "(''Fetch error:'', e) \<in> set (written_until t bs)"
    by (rule written_until_member) simp_all
  then show ?thesis
    unfolding res using w1 k ek by auto
qed


section \<open>Failure of the listing call\<close>

lemma round_to_53_zero: "round_to_53 0 = 0"
  by (simp add: round_to_53_def bit_length.simps)



section \<open>The joint listing requests of the top listings\<close>

lemma fetchJson_requests:
  "\<exists>rs. requests (snd (fetchJson E endpoint params config w)) = requests w @ rs"
  by (simp add: fetchJson_def Let_def issue_def log_error_def split: sum.splits)

lemma ranked_covers_requests:
  "\<exists>rs. requests (snd (ranked_covers E req w)) = requests w @ rs"
proof (cases "ranked_ids req")
  case (Inl e)
  then show ?thesis by (simp add: ranked_covers_def)
next
  case (Inr ids)
  obtain t r w1 where f: "fetchCovers E ids (JObj []) 0 100 w = ((t, r), w1)"
    by (metis surj_pair)
  with fetchJson_requests [of E "''manga''" _ ForceCache w]
  have "\<exists>rs. requests w1 = requests w @ rs"
    unfolding fetchCovers_def by (metis snd_conv)
  with Inr f show ?thesis by (simp add: ranked_covers_def)
qed

lemma top_covers_requests:
  "\<exists>rs. requests (snd (top_covers E reqs w)) = requests w @ rs"
proof (cases "\<exists>a b c. reqs = [a, b, c]")
  case False
  then have "top_covers E reqs w = (Inl TypeError, w)"
    by (auto simp: top_covers_def split: list.splits)
  then show ?thesis by simp
next
  case True
  then obtain a b c where reqs: "reqs = [a, b, c]" by blast
  define s1 where "s1 = ranked_covers E a w"
  define s2 where "s2 = ranked_covers E b (snd s1)"
  define s3 where "s3 = ranked_covers E c (snd s2)"
  have g1: "\<exists>rs. requests (snd s1) = requests w @ rs"
    unfolding s1_def by (rule ranked_covers_requests)
  have g2: "\<exists>rs. requests (snd s2) = requests w @ rs"
    using g1 ranked_covers_requests [of E b "snd s1"] unfolding s2_def by auto
  have g3: "\<exists>rs. requests (snd s3) = requests w @ rs"
    using g2 ranked_covers_requests [of E c "snd s2"] unfolding s3_def by auto
  have "snd (top_covers E reqs w) = snd s1 \<or> snd (top_covers E reqs w) = snd s2
      \<or> snd (top_covers E reqs w) = snd s3"
    unfolding reqs top_covers_def s1_def s2_def s3_def
    by (auto split: sum.splits prod.splits)
  with g1 g2 g3 show ?thesis by auto
qed

lemma await_all_requests: "requests (snd (await_all label bs w)) = requests w"
  by (auto simp: await_all_def split: prod.splits sum.splits)

lemma fetchTopListings_requests:
  "\<exists>rest. requests (snd (fetchTopListings E w)) = requests w @ ranked_requests @ rest"
proof -
  obtain bs w1 where tr: "top_requests E w = (bs, w1)" by (cases "top_requests E w")
  then have w1: "requests w1 = requests w @ ranked_requests"
    using top_world [of E w] by simp
  obtain r w2 where aw: "await_all ''Error in fetchTopListings:'' bs w1 = (r, w2)"
    by (metis prod.collapse)
  then have w2: "requests w2 = requests w @ ranked_requests"
    using await_all_requests [of "''Error in fetchTopListings:''" bs w1] w1 by simp
  show ?thesis
  proof (cases r)
    case (Inl e)
    with tr aw w2 show ?thesis
      by (simp add: fetchTopListings_def)
  next
    case (Inr reqs)
    obtain rs where "requests (snd (top_covers E reqs w2)) = requests w2 @ rs"
      using top_covers_requests by blast
    with tr aw w2 Inr show ?thesis
      by (cases "top_covers E reqs w2")
        (auto simp: fetchTopListings_def caught_def log_error_def split: sum.splits)
  qed
qed

text \<open>
  Claim C7. \<^verbatim>\<open>fetchTopListings\<close> issues its three ranked listing requests (by
  \<^verbatim>\<open>followedCount\<close>, by \<^verbatim>\<open>rating\<close> and by \<^verbatim>\<open>readingProgress\<close>, each with limit 10) as
  one batch: all three are issued, in this order and whatever their answers, before any
  other request. They are awaited jointly: when any one of the three listing calls is
  rejected, the whole call is rejected with the error of one of them, which the outer
  \<^verbatim>\<open>catch\<close> writes to the console after that call's own line, and the three listing
  requests are all it ever issued (none is repeated, no cover request follows, no partial
  result is returned).
\<close>

theorem top_listings_joint:
  "(\<exists>rest. requests (snd (fetchTopListings E w)) = requests w @ ranked_requests @ rest)
   \<and> ((\<exists>j<3. \<exists>e. read_json (net E (length (requests w) + j) (ranked_requests ! j)) = Inl e) \<longrightarrow>
        (\<exists>j<3. \<exists>e. read_json (net E (length (requests w) + j) (ranked_requests ! j)) = Inl e
            \<and> fst (fetchTopListings E w) = Inl e
            \<and> (\<exists>pre post. console (snd (fetchTopListings E w))
                   = console w @ pre @ [(''Error in fetchTopListings:'', e)] @ post
                 \<and> (''Fetch error:'', e) \<in> set pre))
        \<and> requests (snd (fetchTopListings E w)) = requests w @ ranked_requests)"
proof (intro conjI impI)
  show "\<exists>rest. requests (snd (fetchTopListings E w)) = requests w @ ranked_requests @ rest"
    by (rule fetchTopListings_requests)
next
  assume fails: "\<exists>j<3. \<exists>e. read_json (net E (length (requests w) + j) (ranked_requests ! j)) = Inl e"
  obtain bs w1 where tr: "top_requests E w = (bs, w1)" by (cases "top_requests E w")
  have ps: "map fst bs = map (\<lambda>i. (Suc (arrival E (length (requests w) + i)),
                read_json (net E (length (requests w) + i) (ranked_requests ! i)))) [0..<3]"
    using top_branches [of E w] tr by (simp add: comp_def del: upt_Suc)
  from fails obtain j e where j: "j < 3"
    and e: "read_json (net E (length (requests w) + j) (ranked_requests ! j)) = Inl e"
    by blast
  have "(Suc (arrival E (length (requests w) + j)), Inl e) \<in> set (map fst bs)"
    unfolding ps using j e by (auto simp del: upt_Suc intro!: image_eqI [where x = j])
  then obtain t' e' where pa: "promise_all (map fst bs) = (t', Inl e')"
    using promise_all_rejects by blast
  note rej = top_rejected [OF tr pa]
  from rej obtain k where k: "k < 3"
    and ek: "read_json (net E (length (requests w) + k) (ranked_requests ! k)) = Inl e'"
    by blast
  show "\<exists>j<3. \<exists>e. read_json (net E (length (requests w) + j) (ranked_requests ! j)) = Inl e
            \<and> fst (fetchTopListings E w) = Inl e
            \<and> (\<exists>pre post. console (snd (fetchTopListings E w))
                   = console w @ pre @ [(''Error in fetchTopListings:'', e)] @ post
                 \<and> (''Fetch error:'', e) \<in> set pre)"
    using k ek rej by blast
  show "requests (snd (fetchTopListings E w)) = requests w @ ranked_requests"
    using rej by blast
qed

theorem top_listings_joint_witness:
  "(\<exists>j<3. \<exists>e. read_json
       (net \<lparr>net = (\<lambda>i rq.
                 if i = 0 then Answered
                   \<lparr>status = 500, statusText = ''Internal Server Error'', bytes = [], json = None\<rparr>
                 else if i = 1 then Answered
                   \<lparr>status = 404, statusText = ''Not Found'', bytes = [], json = None\<rparr>
                 else Answered \<lparr>status = 200, statusText = ''OK'', bytes = [],
                                 json = Some (JObj [(''data'', JArr [])])\<rparr>),
             arrival = (\<lambda>i. if i = 1 then 7 else 0), random = (0, 53), exchanges = []\<rparr>
          (length (requests \<lparr>requests = [], console = []\<rparr>) + j) (ranked_requests ! j)) = Inl e)
   \<and> fetchTopListings
        \<lparr>net = (\<lambda>i rq.
                 if i = 0 then Answered
                   \<lparr>status = 500, statusText = ''Internal Server Error'', bytes = [], json = None\<rparr>
                 else if i = 1 then Answered
                   \<lparr>status = 404, statusText = ''Not Found'', bytes = [], json = None\<rparr>
                 else Answered \<lparr>status = 200, statusText = ''OK'', bytes = [],
                                 json = Some (JObj [(''data'', JArr [])])\<rparr>),
         arrival = (\<lambda>i. if i = 1 then 7 else 0), random = (0, 53), exchanges = []\<rparr>
        \<lparr>requests = [], console = []\<rparr>
      = (Inl (Error ''HTTP error! Status: 500''),
         \<lparr>requests = ranked_requests,
          console = [(''Fetch error:'', Error ''HTTP error! Status: 500''),
                     (''Error in fetchTopListings:'', Error ''HTTP error! Status: 500''),
                     (''Fetch error:'', Error ''HTTP error! Status: 404'')]\<rparr>)"
proof -
  let ?E = "\<lparr>net = (\<lambda>i rq.
                 if i = 0 then Answered
                   \<lparr>status = 500, statusText = ''Internal Server Error'', bytes = [], json = None\<rparr>
                 else if i = 1 then Answered
                   \<lparr>status = 404, statusText = ''Not Found'', bytes = [], json = None\<rparr>
                 else Answered \<lparr>status = 200, statusText = ''OK'', bytes = [],
                                 json = Some (JObj [(''data'', JArr [])])\<rparr>),
             arrival = (\<lambda>i. if i = 1 then 7 else 0), random = (0, 53), exchanges = []\<rparr>"
  let ?w = "\<lparr>requests = [], console = []\<rparr>"
  have fails: "\<exists>j<3. \<exists>e.
      read_json (net ?E (length (requests ?w) + j) (ranked_requests ! j)) = Inl e"
    by (rule exI [of _ 0]) (simp add: read_json_def ok_def)
  have run: "fetchTopListings ?E ?w
      = (Inl (Error ''HTTP error! Status: 500''),
         \<lparr>requests = ranked_requests,
          console = [(''Fetch error:'', Error ''HTTP error! Status: 500''),
                     (''Error in fetchTopListings:'', Error ''HTTP error! Status: 500''),
                     (''Fetch error:'', Error ''HTTP error! Status: 404'')]\<rparr>)"
    by (simp add: fetchTopListings_def top_requests_settled read_json_def ok_def http_error_def
        show_nat.simps digit_char_def rejected_line_def promise_all_def await_all_def
        written_until_def written_after_def)
  have "requests (snd (fetchTopListings ?E ?w)) = requests ?w @ ranked_requests"
    by (rule top_listings_joint [THEN conjunct2, THEN mp, OF fails, THEN conjunct2])
  with fails run show ?thesis by simp
qed

section \<open>Cover resolution\<close>

lemma find_first:
  assumes "\<forall>u \<in> set pre. \<not> P u" and "P t"
  shows "List.find P (pre @ t # post) = Some t"
  using assms by (induction pre) auto

lemma find_none: "\<forall>u \<in> set ts. \<not> P u \<Longrightarrow> List.find P ts = None"
  by (induction ts) auto

lemma fetchCover_requests:
  "requests (snd (fetchCover E url w)) = requests w @ [\<lparr>href = url, hint = ForceCache\<rparr>]"
  by (simp add: fetchCover_def Let_def issue_def log_error_def split: sum.splits)

lemma view_item_requests:
  assumes "cover_file k = Inr file"
  shows "requests (snd (view_item E k w))
    = requests w @ [\<lparr>href = cover_url (opt k ''id'') file, hint = ForceCache\<rparr>]"
proof -
  obtain t r w1 where f: "fetchCover E (cover_url (opt k ''id'') file) w = ((t, r), w1)"
    by (metis surj_pair)
  then have "requests w1 = requests w @ [\<lparr>href = cover_url (opt k ''id'') file, hint = ForceCache\<rparr>]"
    using fetchCover_requests [of E "cover_url (opt k ''id'') file" w] by simp
  with assms f show ?thesis
    by (cases r) (simp_all add: view_item_def)
qed

lemma carousel_item_requests:
  assumes "carousel_before m = Inr (mid, tags, url)"
  shows "requests (snd (carousel_item E m w)) = requests w @ [\<lparr>href = url, hint = ForceCache\<rparr>]"
proof -
  obtain t r w1 where f: "fetchCover E url w = ((t, r), w1)"
    by (metis surj_pair)
  then have "requests w1 = requests w @ [\<lparr>href = url, hint = ForceCache\<rparr>]"
    using fetchCover_requests [of E url w] by simp
  with assms f show ?thesis
    by (cases r) (simp_all add: carousel_item_def)
qed

lemma cover_file_first:
  assumes "opt k ''relationships'' = JArr (pre @ t # post)"
    and "\<forall>u \<in> set pre. opt u ''type'' \<noteq> JStr ''cover_art''"
    and "opt t ''type'' = JStr ''cover_art''"
  shows "cover_file k = Inr (opt (opt t ''attributes'') ''fileName'')"
  using assms by (simp add: cover_file_def find_cover_art_def find_first)

lemma get_opt: "get v k = (if nullish v then Inl TypeError else Inr (opt v k))"
  by (simp add: get_def opt_def)

lemma find_cover_art_strict_first:
  assumes "\<forall>u \<in> set pre. opt u ''type'' \<noteq> JStr ''cover_art'' \<and> \<not> nullish u"
    and "opt t ''type'' = JStr ''cover_art''"
  shows "find_cover_art_strict (pre @ t # post) = Inr t"
  using assms
proof (induction pre)
  case Nil
  then have "\<not> nullish t" by (auto simp: opt_def)
  with Nil show ?case by (simp add: get_opt)
next
  case (Cons u pre)
  then show ?case by (simp add: get_opt)
qed

lemma carousel_file_first:
  assumes "opt m ''relationships'' = JArr (pre @ t # post)"
    and "\<forall>u \<in> set pre. opt u ''type'' \<noteq> JStr ''cover_art'' \<and> \<not> nullish u"
    and "opt t ''type'' = JStr ''cover_art''"
    and "opt (opt t ''attributes'') ''fileName'' = JStr file"
  shows "carousel_file m = Inr (JStr file)"
proof -
  have m: "\<not> nullish m" using assms(1) by (auto simp: opt_def)
  have t: "\<not> nullish t" using assms(3) by (auto simp: opt_def)
  have a: "\<not> nullish (opt t ''attributes'')" using assms(4) by (auto simp: opt_def)
  show ?thesis
    using assms m t a
    by (simp add: carousel_file_def and_then_def get_opt find_cover_art_strict_first)
qed

lemma find_cover_art_strict_found:
  assumes "find_cover_art_strict (pre @ t # post) = Inr found"
    and "\<forall>u \<in> set pre. opt u ''type'' \<noteq> JStr ''cover_art''"
    and "opt t ''type'' = JStr ''cover_art''"
  shows "found = t"
  using assms
proof (induction pre)
  case Nil
  then show ?case by (auto simp: get_opt split: if_splits)
next
  case (Cons u pre)
  then show ?case by (auto simp: get_opt split: if_splits)
qed

lemma carousel_before_url:
  assumes "carousel_before k = Inr (mid, tags, url)"
    and "opt k ''relationships'' = JArr (pre @ t # post)"
    and "\<forall>u \<in> set pre. opt u ''type'' \<noteq> JStr ''cover_art''"
    and "opt t ''type'' = JStr ''cover_art''"
    and "opt (opt t ''attributes'') ''fileName'' = JStr file"
  shows "url = cover_url (opt k ''id'') (JStr file)"
proof -
  from assms(1) obtain f where mid: "mid = opt k ''id''" and f: "carousel_file k = Inr f"
    and url: "url = cover_url mid f"
    by (auto simp: carousel_before_def and_then_def get_opt split: if_splits sum.splits)
  from f assms(2) obtain found where found: "find_cover_art_strict (pre @ t # post) = Inr found"
    and ff: "get found ''attributes'' = Inr (opt found ''attributes'')"
      "f = opt (opt found ''attributes'') ''fileName''"
    by (auto simp: carousel_file_def and_then_def get_opt split: if_splits sum.splits)
  have "found = t"
    by (rule find_cover_art_strict_found [OF found assms(3) assms(4)])
  with ff assms(5) have "f = JStr file" by simp
  with mid url show ?thesis by simp
qed

lemma carousel_before_defined:
  assumes "opt k ''relationships'' = JArr (pre @ t # post)"
    and "\<forall>u \<in> set pre. opt u ''type'' \<noteq> JStr ''cover_art''"
    and "opt t ''type'' = JStr ''cover_art''"
    and "opt (opt t ''attributes'') ''fileName'' = JStr file"
    and "\<not> nullish (opt k ''attributes'')" and "\<forall>u \<in> set pre. \<not> nullish u"
  shows "carousel_before k
    = Inr (opt k ''id'', opt (opt k ''attributes'') ''tags'', cover_url (opt k ''id'') (JStr file))"
proof -
  have k: "\<not> nullish k" using assms(1) by (auto simp: opt_def)
  have "carousel_file k = Inr (JStr file)"
    using assms by (intro carousel_file_first [where pre = pre and t = t and post = post]) auto
  with k assms(5) show ?thesis
    by (simp add: carousel_before_def and_then_def get_opt)
qed

lemma find_cover_art_strict_absent:
  "\<forall>t \<in> set ts. opt t ''type'' \<noteq> JStr ''cover_art'' \<Longrightarrow>
   find_cover_art_strict ts = Inl TypeError \<or> find_cover_art_strict ts = Inr JUndefined"
  by (induction ts) (auto simp: get_opt)

lemmas run_defs =
  fetchCovers_def fetchJson_def serializer_defs show_int_def show_nat.simps digit_char_def
  endpoint_url_def baseUrl_def read_json_def ok_def issue_def log_error_def Let_def
  opt_def nullish_def get_def and_then_def caught_def promise_all_def await_all_def
  written_until_def written_after_def
  fetchCover_def read_image_def cover_url_def

text \<open>
  Claim C3, as the specification words it, speaks of an entity whose relationships
  \<^emph>\<open>contain\<close> a \<^verbatim>\<open>cover_art\<close> entry with file name \<^verbatim>\<open>x.jpg\<close>. The scan is
  \<^verbatim>\<open>find\<close>, which stops at the first \<^verbatim>\<open>cover_art\<close> entry: when an entry for
  \<^verbatim>\<open>y.jpg\<close> stands before the one for \<^verbatim>\<open>x.jpg\<close>, the address requested is the one of
  \<^verbatim>\<open>y.jpg\<close>.
\<close>

theorem later_cover_art_counterexample:
  "opt (JObj [(''id'', JStr ''m1''),
              (''relationships'',
                 JArr [JObj [(''type'', JStr ''cover_art''),
                             (''attributes'', JObj [(''fileName'', JStr ''y.jpg'')])],
                       JObj [(''type'', JStr ''cover_art''),
                             (''attributes'', JObj [(''fileName'', JStr ''x.jpg'')])]])])
       ''relationships''
     = JArr [JObj [(''type'', JStr ''cover_art''),
                   (''attributes'', JObj [(''fileName'', JStr ''y.jpg'')])],
             JObj [(''type'', JStr ''cover_art''),
                   (''attributes'', JObj [(''fileName'', JStr ''x.jpg'')])]]
   \<and> requests (snd (view_item
      \<lparr>net = (\<lambda>i rq. Answered \<lparr>status = 200, statusText = ''OK'', bytes = [], json = None\<rparr>),
       arrival = (\<lambda>i. i), random = (0, 53), exchanges = []\<rparr>
      (JObj [(''id'', JStr ''m1''),
             (''relationships'',
                JArr [JObj [(''type'', JStr ''cover_art''),
                            (''attributes'', JObj [(''fileName'', JStr ''y.jpg'')])],
                      JObj [(''type'', JStr ''cover_art''),
                            (''attributes'', JObj [(''fileName'', JStr ''x.jpg'')])]])])
      \<lparr>requests = [], console = []\<rparr>))
     = [\<lparr>href = ''https://uploads.mangadex.org/covers/m1/y.jpg.256.jpg'', hint = ForceCache\<rparr>]
   \<and> ''https://uploads.mangadex.org/covers/m1/y.jpg.256.jpg''
       \<noteq> ''https://uploads.mangadex.org/covers/m1/x.jpg.256.jpg''"
  by (simp add: view_item_def cover_file_def find_cover_art_def opt_def nullish_def cover_url_def
      fetchCover_def read_image_def ok_def issue_def log_error_def Let_def)

text \<open>
  Claim C3, amended. For every manga entity whose first relationship of type
  \<^verbatim>\<open>cover_art\<close> has the file name \<open>file\<close> (\<^verbatim>\<open>x.jpg\<close> in the claim), the image
  address that the callback of \<^verbatim>\<open>getLatestManga\<close> and \<^verbatim>\<open>searchManga\<close> requests is
  \<^verbatim>\<open>https://uploads.mangadex.org/covers/<id>/<file>.256.jpg\<close>; whenever the callback of
  \<^verbatim>\<open>Carousel\<close> builds an address for the entity it is this one, and it does build it
  when the entity has attributes and no absent relationship stands before that entry.
\<close>

theorem first_cover_art_url:
  assumes "opt k ''relationships'' = JArr (pre @ t # post)"
    and "\<forall>u \<in> set pre. opt u ''type'' \<noteq> JStr ''cover_art''"
    and "opt t ''type'' = JStr ''cover_art''"
    and "opt (opt t ''attributes'') ''fileName'' = JStr file"
  shows "requests (snd (view_item E k w))
           = requests w @
             [\<lparr>href = ''https://uploads.mangadex.org/covers/'' @ to_string (opt k ''id'') @ ''/''
                      @ file @ ''.256.jpg'',
               hint = ForceCache\<rparr>]
       \<and> (\<forall>mid tags url. carousel_before k = Inr (mid, tags, url) \<longrightarrow>
             url = ''https://uploads.mangadex.org/covers/'' @ to_string (opt k ''id'') @ ''/''
                     @ file @ ''.256.jpg''
             \<and> requests (snd (carousel_item E k w))
                 = requests w @ [\<lparr>href = url, hint = ForceCache\<rparr>])
       \<and> (\<not> nullish (opt k ''attributes'') \<and> (\<forall>u \<in> set pre. \<not> nullish u) \<longrightarrow>
             requests (snd (carousel_item E k w))
               = requests w @
                 [\<lparr>href = ''https://uploads.mangadex.org/covers/'' @ to_string (opt k ''id'')
                          @ ''/'' @ file @ ''.256.jpg'',
                   hint = ForceCache\<rparr>])"
proof (intro conjI allI impI)
  have "cover_file k = Inr (JStr file)"
    using cover_file_first [OF assms(1-3)] assms(4) by simp
  then show "requests (snd (view_item E k w))
           = requests w @
             [\<lparr>href = ''https://uploads.mangadex.org/covers/'' @ to_string (opt k ''id'') @ ''/''
                      @ file @ ''.256.jpg'',
               hint = ForceCache\<rparr>]"
    by (simp add: view_item_requests cover_url_def)
next
  fix mid tags url
  assume b: "carousel_before k = Inr (mid, tags, url)"
  show "url = ''https://uploads.mangadex.org/covers/'' @ to_string (opt k ''id'') @ ''/''
                     @ file @ ''.256.jpg''"
    using carousel_before_url [OF b assms] by (simp add: cover_url_def)
  show "requests (snd (carousel_item E k w)) = requests w @ [\<lparr>href = url, hint = ForceCache\<rparr>]"
    by (rule carousel_item_requests [OF b])
next
  assume "\<not> nullish (opt k ''attributes'') \<and> (\<forall>u \<in> set pre. \<not> nullish u)"
  then have "carousel_before k
    = Inr (opt k ''id'', opt (opt k ''attributes'') ''tags'', cover_url (opt k ''id'') (JStr file))"
    using carousel_before_defined [OF assms] by simp
  then show "requests (snd (carousel_item E k w))
               = requests w @
                 [\<lparr>href = ''https://uploads.mangadex.org/covers/'' @ to_string (opt k ''id'')
                          @ ''/'' @ file @ ''.256.jpg'',
                   hint = ForceCache\<rparr>]"
    by (simp add: carousel_item_requests cover_url_def)
qed

theorem first_cover_art_url_witness:
  "requests (snd (view_item
      \<lparr>net = (\<lambda>i rq. Answered \<lparr>status = 200, statusText = ''OK'', bytes = [], json = None\<rparr>),
       arrival = (\<lambda>i. i), random = (0, 53), exchanges = []\<rparr>
      (JObj [(''id'', JStr ''m1''),
             (''attributes'', JObj [(''tags'', JArr [])]),
             (''relationships'',
                JArr [JObj [(''type'', JStr ''author'')],
                      JObj [(''type'', JStr ''cover_art''),
                            (''attributes'', JObj [(''fileName'', JStr ''x.jpg'')])]])])
      \<lparr>requests = [], console = []\<rparr>))
     = [\<lparr>href = ''https://uploads.mangadex.org/covers/m1/x.jpg.256.jpg'', hint = ForceCache\<rparr>]
   \<and> requests (snd (carousel_item
      \<lparr>net = (\<lambda>i rq. Answered \<lparr>status = 200, statusText = ''OK'', bytes = [], json = None\<rparr>),
       arrival = (\<lambda>i. i), random = (0, 53), exchanges = []\<rparr>
      (JObj [(''id'', JStr ''m1''),
             (''attributes'', JObj [(''tags'', JArr [])]),
             (''relationships'',
                JArr [JObj [(''type'', JStr ''author'')],
                      JObj [(''type'', JStr ''cover_art''),
                            (''attributes'', JObj [(''fileName'', JStr ''x.jpg'')])]])])
      \<lparr>requests = [], console = []\<rparr>))
     = [\<lparr>href = ''https://uploads.mangadex.org/covers/m1/x.jpg.256.jpg'', hint = ForceCache\<rparr>]"
  using first_cover_art_url
    [of "JObj [(''id'', JStr ''m1''),
             (''attributes'', JObj [(''tags'', JArr [])]),
             (''relationships'',
                JArr [JObj [(''type'', JStr ''author'')],
                      JObj [(''type'', JStr ''cover_art''),
                            (''attributes'', JObj [(''fileName'', JStr ''x.jpg'')])]])]"
        "[JObj [(''type'', JStr ''author'')]]"
        "JObj [(''type'', JStr ''cover_art''), (''attributes'', JObj [(''fileName'', JStr ''x.jpg'')])]"
        "[]" "''x.jpg''"
        "\<lparr>net = (\<lambda>i rq. Answered \<lparr>status = 200, statusText = ''OK'', bytes = [], json = None\<rparr>),
          arrival = (\<lambda>i. i), random = (0, 53), exchanges = []\<rparr>"
        "\<lparr>requests = [], console = []\<rparr>"]
  by (simp add: opt_def nullish_def)

text \<open>
  Claim C4 says that an entity with no \<^verbatim>\<open>cover_art\<close> relationship makes the scan yield
  \<^verbatim>\<open>undefined\<close> and never makes an aggregator throw. The guarded chain of
  \<^verbatim>\<open>getLatestManga\<close> and \<^verbatim>\<open>searchManga\<close> does yield \<^verbatim>\<open>undefined\<close>; the unguarded
  chain of \<^verbatim>\<open>Carousel\<close> reads \<^verbatim>\<open>.attributes\<close> of that \<^verbatim>\<open>undefined\<close> and raises a
  TypeError, so the callback is rejected before it issues any request, and with it the
  whole call.
\<close>

theorem carousel_needs_cover_art:
  assumes "opt m ''relationships'' = JArr ts"
    and "\<forall>t \<in> set ts. opt t ''type'' \<noteq> JStr ''cover_art''"
  shows "cover_file m = Inr JUndefined
       \<and> carousel_file m = Inl TypeError
       \<and> carousel_item E m w = ((0, Inl TypeError), w)"
proof -
  have "find_cover_art ts = JUndefined"
    using assms(2) by (simp add: find_cover_art_def find_none)
  then have latest: "cover_file m = Inr JUndefined"
    using assms(1) by (simp add: cover_file_def opt_def nullish_def)
  have m: "\<not> nullish m" using assms(1) by (auto simp: opt_def)
  have cfile: "carousel_file m = Inl TypeError"
    using find_cover_art_strict_absent [OF assms(2)] assms(1) m
    by (auto simp: carousel_file_def and_then_def get_opt nullish_def)
  then have "carousel_before m = Inl TypeError"
    by (simp add: carousel_before_def and_then_def get_opt)
  then have "carousel_item E m w = ((0, Inl TypeError), w)"
    by (simp add: carousel_item_def)
  with latest cfile show ?thesis by simp
qed

theorem carousel_needs_cover_art_witness:
  "carousel_item
      \<lparr>net = (\<lambda>i rq. Answered \<lparr>status = 200, statusText = ''OK'', bytes = [],
          json = Some (JObj [(''data'', JArr
            [JObj [(''id'', JStr ''m1''), (''type'', JStr ''manga''),
                   (''attributes'', JObj [(''title'', JObj [(''en'', JStr ''T'')]),
                                          (''tags'', JArr []), (''description'', JObj [])]),
                   (''relationships'', JArr [JObj [(''id'', JStr ''a1''), (''type'', JStr ''author'')]])]])])\<rparr>),
       arrival = (\<lambda>i. i), random = (0, 53), exchanges = []\<rparr>
      (JObj [(''id'', JStr ''m1''), (''type'', JStr ''manga''),
             (''attributes'', JObj [(''title'', JObj [(''en'', JStr ''T'')]),
                                    (''tags'', JArr []), (''description'', JObj [])]),
             (''relationships'', JArr [JObj [(''id'', JStr ''a1''), (''type'', JStr ''author'')]])])
      \<lparr>requests = [], console = []\<rparr>
     = ((0, Inl TypeError), \<lparr>requests = [], console = []\<rparr>)
   \<and> fst (Carousel
      \<lparr>net = (\<lambda>i rq. Answered \<lparr>status = 200, statusText = ''OK'', bytes = [],
          json = Some (JObj [(''data'', JArr
            [JObj [(''id'', JStr ''m1''), (''type'', JStr ''manga''),
                   (''attributes'', JObj [(''title'', JObj [(''en'', JStr ''T'')]),
                                          (''tags'', JArr []), (''description'', JObj [])]),
                   (''relationships'', JArr [JObj [(''id'', JStr ''a1''), (''type'', JStr ''author'')]])]])])\<rparr>),
       arrival = (\<lambda>i. i), random = (0, 53), exchanges = []\<rparr>
      \<lparr>requests = [], console = []\<rparr>)
     = Inl TypeError
   \<and> console (snd (Carousel
      \<lparr>net = (\<lambda>i rq. Answered \<lparr>status = 200, statusText = ''OK'', bytes = [],
          json = Some (JObj [(''data'', JArr
            [JObj [(''id'', JStr ''m1''), (''type'', JStr ''manga''),
                   (''attributes'', JObj [(''title'', JObj [(''en'', JStr ''T'')]),
                                          (''tags'', JArr []), (''description'', JObj [])]),
                   (''relationships'', JArr [JObj [(''id'', JStr ''a1''), (''type'', JStr ''author'')]])]])])\<rparr>),
       arrival = (\<lambda>i. i), random = (0, 53), exchanges = []\<rparr>
      \<lparr>requests = [], console = []\<rparr>))
     = [(''Error in Carousel:'', TypeError)]
   \<and> fst (getLatestManga
      \<lparr>net = (\<lambda>i rq. Answered \<lparr>status = 200, statusText = ''OK'', bytes = [],
          json = Some (JObj [(''data'', JArr
            [JObj [(''id'', JStr ''m1''), (''type'', JStr ''manga''),
                   (''attributes'', JObj [(''title'', JObj [(''en'', JStr ''T'')]),
                                          (''tags'', JArr []), (''description'', JObj [])]),
                   (''relationships'', JArr [JObj [(''id'', JStr ''a1''), (''type'', JStr ''author'')]])]])])\<rparr>),
       arrival = (\<lambda>i. i), random = (0, 53), exchanges = []\<rparr>
      \<lparr>requests = [], console = []\<rparr>)
     = Inr [\<lparr>v_id = JStr ''m1'', v_updatedAt = JUndefined,
             v_cover = ''data:image/jpeg;base64,'', v_title = JStr ''T''\<rparr>]"
  using carousel_needs_cover_art
    [of "JObj [(''id'', JStr ''m1''), (''type'', JStr ''manga''),
             (''attributes'', JObj [(''title'', JObj [(''en'', JStr ''T'')]),
                                    (''tags'', JArr []), (''description'', JObj [])]),
             (''relationships'', JArr [JObj [(''id'', JStr ''a1''), (''type'', JStr ''author'')]])]"
        "[JObj [(''id'', JStr ''a1''), (''type'', JStr ''author'')]]"
        "\<lparr>net = (\<lambda>i rq. Answered \<lparr>status = 200, statusText = ''OK'', bytes = [],
          json = Some (JObj [(''data'', JArr
            [JObj [(''id'', JStr ''m1''), (''type'', JStr ''manga''),
                   (''attributes'', JObj [(''title'', JObj [(''en'', JStr ''T'')]),
                                          (''tags'', JArr []), (''description'', JObj [])]),
                   (''relationships'', JArr [JObj [(''id'', JStr ''a1''), (''type'', JStr ''author'')]])]])])\<rparr>),
       arrival = (\<lambda>i. i), random = (0, 53), exchanges = []\<rparr>"
        "\<lparr>requests = [], console = []\<rparr>"]
  by (simp add: Carousel_def getLatestManga_def with_covers_def fetchLatestChapters_def
      randomOffset_def round_to_53_zero carousel_params_def carousel_ids_def getRandomManga_def
      engine_sort_def
      carousel_item_def carousel_before_def carousel_file_def
      entity_ids_def cover_items_def view_item_def cover_file_def find_cover_art_def
      view_title_def js_or_def run_defs)

section \<open>Title fallback\<close>

text \<open>
  Claim C5. For every manga entity whose title mapping has no \<^verbatim>\<open>en\<close> key and maps
  \<^verbatim>\<open>ja-ro\<close> to a non-empty string (\<^verbatim>\<open>{"ja-ro": "Foo"}\<close> in the claim), the title of the
  view model is that string, in the callback of \<^verbatim>\<open>getLatestManga\<close> and \<^verbatim>\<open>searchManga\<close>
  and in the callback of \<^verbatim>\<open>Carousel\<close>; the fallback chain raises nothing.
\<close>

theorem title_fallback:
  assumes "opt (opt k ''attributes'') ''title'' = JObj kvs"
    and "map_of kvs ''en'' = None"
    and "map_of kvs ''ja-ro'' = Some (JStr s)" and "s \<noteq> []"
  shows "view_title k = JStr s
       \<and> (\<forall>t v w1. view_item E k w = ((t, Inr v), w1) \<longrightarrow> v_title v = JStr s)
       \<and> carousel_title k = Inr (JStr s)
       \<and> (\<forall>t v w1. carousel_item E k w = ((t, Inr v), w1) \<longrightarrow> c_title v = JStr s)"
proof -
  have k: "\<not> nullish k" and a: "\<not> nullish (opt k ''attributes'')"
    using assms(1) by (auto simp: opt_def nullish_def split: if_splits)
  have vt: "view_title k = JStr s"
    using assms by (simp add: view_title_def opt_def nullish_def js_or_def)
  have ct: "carousel_title k = Inr (JStr s)"
    using assms k a
    by (simp add: carousel_title_def and_then_def get_opt) (simp add: opt_def nullish_def js_or_def)
  have v: "v_title v = JStr s" if "view_item E k w = ((t, Inr v), w1)" for t v w1
    using that vt
    by (auto simp: view_item_def split: sum.splits prod.splits)
  have c: "c_title v = JStr s" if "carousel_item E k w = ((t, Inr v), w1)" for t v w1
    using that ct
    by (auto simp: carousel_item_def carousel_after_def and_then_def
        split: sum.splits prod.splits)
  from vt ct v c show ?thesis by blast
qed

theorem title_fallback_witness:
  "view_title (JObj [(''id'', JStr ''m1''),
                     (''attributes'', JObj [(''title'', JObj [(''ja-ro'', JStr ''Foo'')])])])
     = JStr ''Foo''
   \<and> carousel_title (JObj [(''id'', JStr ''m1''),
                     (''attributes'', JObj [(''title'', JObj [(''ja-ro'', JStr ''Foo'')])])])
     = Inr (JStr ''Foo'')
   \<and> snd (fst (view_item
        \<lparr>net = (\<lambda>i rq. Answered \<lparr>status = 200, statusText = ''OK'', bytes = ''Man'', json = None\<rparr>),
         arrival = (\<lambda>i. i), random = (0, 53), exchanges = []\<rparr>
        (JObj [(''id'', JStr ''m1''),
               (''attributes'', JObj [(''title'', JObj [(''ja-ro'', JStr ''Foo'')])])])
        \<lparr>requests = [], console = []\<rparr>))
     = Inr \<lparr>v_id = JStr ''m1'', v_updatedAt = JUndefined,
            v_cover = ''data:image/jpeg;base64,TWFu'', v_title = JStr ''Foo''\<rparr>"
  using title_fallback
    [of "JObj [(''id'', JStr ''m1''),
               (''attributes'', JObj [(''title'', JObj [(''ja-ro'', JStr ''Foo'')])])]"
        "[(''ja-ro'', JStr ''Foo'')]" "''Foo''"
        "\<lparr>net = (\<lambda>i rq. Answered \<lparr>status = 200, statusText = ''OK'', bytes = ''Man'', json = None\<rparr>),
         arrival = (\<lambda>i. i), random = (0, 53), exchanges = []\<rparr>"
        "\<lparr>requests = [], console = []\<rparr>"]
  by (simp add: opt_def nullish_def view_item_def cover_file_def fetchCover_def read_image_def
      ok_def issue_def log_error_def Let_def b64_char_def)

section \<open>Absent cover collections\<close>

lemma fetchJson_console:
  "snd (fst (fetchJson E endpoint params config w)) = Inr v \<Longrightarrow>
   console (snd (fetchJson E endpoint params config w)) = console w"
  by (auto simp: fetchJson_def Let_def issue_def log_error_def split: sum.splits)

lemma with_covers_absent:
  assumes "snd (fst listing) = Inr listed" and "entity_ids listed = Inr ids"
    and "snd (fst (fetchCovers E ids (JObj [(''updatedAt'', JStr ''desc'')]) 0 100 (snd listing)))
           = Inr covers"
    and "covers = JNull \<or> (\<exists>kvs. covers = JObj kvs \<and> map_of kvs ''data'' = None)"
  shows "with_covers E listing
    = (Inr [], snd (fetchCovers E ids (JObj [(''updatedAt'', JStr ''desc'')]) 0 100 (snd listing)))"
proof -
  obtain t1 w1 where l: "listing = ((t1, Inr listed), w1)"
    using assms(1) by (cases listing) (auto simp: prod_eq_iff)
  obtain t2 w2 where c:
    "fetchCovers E ids (JObj [(''updatedAt'', JStr ''desc'')]) 0 100 w1 = ((t2, Inr covers), w2)"
    using assms(3) unfolding l
    by (cases "fetchCovers E ids (JObj [(''updatedAt'', JStr ''desc'')]) 0 100 w1")
      (auto simp: prod_eq_iff)
  have "cover_items covers = Inr []"
    using assms(4) by (auto simp: cover_items_def opt_def nullish_def)
  with l c assms(2) show ?thesis
    by (simp add: with_covers_def await_all_def promise_all_def written_until_def)
qed

text \<open>
  Claim C9. In every execution of \<^verbatim>\<open>getLatestManga\<close> or \<^verbatim>\<open>searchManga\<close> in which the
  listing call resolved, its ids were collected, and the cover-resolution call resolved to
  \<^verbatim>\<open>null\<close> or to a collection with no \<^verbatim>\<open>data\<close> field, the aggregator resolves to the
  empty array, and nothing is written to the console.
\<close>

theorem absent_covers_give_empty:
  assumes "covers = JNull \<or> (\<exists>kvs. covers = JObj kvs \<and> map_of kvs ''data'' = None)"
    and "entity_ids listed = Inr ids"
  shows "(snd (fst (fetchLatestChapters E 0 60 w)) = Inr listed
          \<and> snd (fst (fetchCovers E ids (JObj [(''updatedAt'', JStr ''desc'')]) 0 100
                 (snd (fetchLatestChapters E 0 60 w)))) = Inr covers \<longrightarrow>
            fst (getLatestManga E w) = Inr []
            \<and> console (snd (getLatestManga E w)) = console w)
       \<and> (snd (fst (fetchJson E ''manga'' [(''title'', JStr search)] NoHint w)) = Inr listed
          \<and> snd (fst (fetchCovers E ids (JObj [(''updatedAt'', JStr ''desc'')]) 0 100
                 (snd (fetchJson E ''manga'' [(''title'', JStr search)] NoHint w)))) = Inr covers \<longrightarrow>
            fst (searchManga E search w) = Inr []
            \<and> console (snd (searchManga E search w)) = console w)"
proof (intro conjI impI)
  assume h: "snd (fst (fetchLatestChapters E 0 60 w)) = Inr listed
          \<and> snd (fst (fetchCovers E ids (JObj [(''updatedAt'', JStr ''desc'')]) 0 100
                 (snd (fetchLatestChapters E 0 60 w)))) = Inr covers"
  then have run: "getLatestManga E w
      = (Inr [], snd (fetchCovers E ids (JObj [(''updatedAt'', JStr ''desc'')]) 0 100
                 (snd (fetchLatestChapters E 0 60 w))))"
    unfolding getLatestManga_def using assms by (intro with_covers_absent) auto
  show "fst (getLatestManga E w) = Inr []"
    using run by simp
  have "console (snd (fetchLatestChapters E 0 60 w)) = console w"
    using h unfolding fetchLatestChapters_def by (intro fetchJson_console) auto
  moreover have "console (snd (fetchCovers E ids (JObj [(''updatedAt'', JStr ''desc'')]) 0 100
                 (snd (fetchLatestChapters E 0 60 w))))
      = console (snd (fetchLatestChapters E 0 60 w))"
    using h unfolding fetchCovers_def by (intro fetchJson_console) auto
  ultimately show "console (snd (getLatestManga E w)) = console w"
    using run by simp
next
  assume h: "snd (fst (fetchJson E ''manga'' [(''title'', JStr search)] NoHint w)) = Inr listed
          \<and> snd (fst (fetchCovers E ids (JObj [(''updatedAt'', JStr ''desc'')]) 0 100
                 (snd (fetchJson E ''manga'' [(''title'', JStr search)] NoHint w)))) = Inr covers"
  then have run: "searchManga E search w
      = (Inr [], snd (fetchCovers E ids (JObj [(''updatedAt'', JStr ''desc'')]) 0 100
                 (snd (fetchJson E ''manga'' [(''title'', JStr search)] NoHint w))))"
    unfolding searchManga_def using assms by (intro with_covers_absent) auto
  show "fst (searchManga E search w) = Inr []"
    using run by simp
  have "console (snd (fetchJson E ''manga'' [(''title'', JStr search)] NoHint w)) = console w"
    using h by (intro fetchJson_console) auto
  moreover have "console (snd (fetchCovers E ids (JObj [(''updatedAt'', JStr ''desc'')]) 0 100
                 (snd (fetchJson E ''manga'' [(''title'', JStr search)] NoHint w))))
      = console (snd (fetchJson E ''manga'' [(''title'', JStr search)] NoHint w))"
    using h unfolding fetchCovers_def by (intro fetchJson_console) auto
  ultimately show "console (snd (searchManga E search w)) = console w"
    using run by simp
qed

theorem absent_covers_give_empty_witness:
  "fst (getLatestManga
      \<lparr>net = (\<lambda>i rq. if i = 0
          then Answered \<lparr>status = 200, statusText = ''OK'', bytes = [],
                 json = Some (JObj [(''data'', JArr [JObj [(''id'', JStr ''m1'')]])])\<rparr>
          else Answered \<lparr>status = 200, statusText = ''OK'', bytes = [], json = Some JNull\<rparr>),
       arrival = (\<lambda>i. i), random = (0, 53), exchanges = []\<rparr>
      \<lparr>requests = [], console = []\<rparr>) = Inr []
   \<and> console (snd (getLatestManga
      \<lparr>net = (\<lambda>i rq. if i = 0
          then Answered \<lparr>status = 200, statusText = ''OK'', bytes = [],
                 json = Some (JObj [(''data'', JArr [JObj [(''id'', JStr ''m1'')]])])\<rparr>
          else Answered \<lparr>status = 200, statusText = ''OK'', bytes = [], json = Some JNull\<rparr>),
       arrival = (\<lambda>i. i), random = (0, 53), exchanges = []\<rparr>
      \<lparr>requests = [], console = []\<rparr>)) = []
   \<and> fst (searchManga
      \<lparr>net = (\<lambda>i rq. if i = 0
          then Answered \<lparr>status = 200, statusText = ''OK'', bytes = [],
                 json = Some (JObj [(''data'', JArr [JObj [(''id'', JStr ''m1'')]])])\<rparr>
          else Answered \<lparr>status = 200, statusText = ''OK'', bytes = [], json = Some JNull\<rparr>),
       arrival = (\<lambda>i. i), random = (0, 53), exchanges = []\<rparr>
      ''naruto'' \<lparr>requests = [], console = []\<rparr>) = Inr []"
  using absent_covers_give_empty
    [of JNull "JObj [(''data'', JArr [JObj [(''id'', JStr ''m1'')]])]" "JArr [JStr ''m1'']"
        "\<lparr>net = (\<lambda>i rq. if i = 0
          then Answered \<lparr>status = 200, statusText = ''OK'', bytes = [],
                 json = Some (JObj [(''data'', JArr [JObj [(''id'', JStr ''m1'')]])])\<rparr>
          else Answered \<lparr>status = 200, statusText = ''OK'', bytes = [], json = Some JNull\<rparr>),
         arrival = (\<lambda>i. i), random = (0, 53), exchanges = []\<rparr>"
        "\<lparr>requests = [], console = []\<rparr>" "''naruto''"]
  by (simp add: entity_ids_def fetchLatestChapters_settled search_settled run_defs)

section \<open>The window of the carousel\<close>

lemma start_all_requests:
  assumes "\<And>x v. \<exists>rs. requests (snd (f x v)) = requests v @ rs"
  shows "\<exists>rs. requests (snd (start_all f xs w)) = requests w @ rs"
proof (induction xs arbitrary: w)
  case Nil
  show ?case by simp
next
  case (Cons x xs)
  obtain p w1 where f: "f x (w\<lparr>console := []\<rparr>) = (p, w1)"
    by (cases "f x (w\<lparr>console := []\<rparr>)")
  obtain bs w2 where s: "start_all f xs (w\<lparr>requests := requests w1\<rparr>) = (bs, w2)"
    by (cases "start_all f xs (w\<lparr>requests := requests w1\<rparr>)")
  from assms [of x "w\<lparr>console := []\<rparr>"] f
  obtain rs where "requests w1 = requests w @ rs" by auto
  moreover from Cons [of "w\<lparr>requests := requests w1\<rparr>"] s
  obtain rs' where "requests w2 = requests w1 @ rs'" by auto
  ultimately show ?case using f s by simp
qed

lemma carousel_item_requests_grow:
  "\<exists>rs. requests (snd (carousel_item E m w)) = requests w @ rs"
proof (cases "carousel_before m")
  case (Inl e)
  then show ?thesis by (simp add: carousel_item_def)
next
  case (Inr b)
  then show ?thesis
    by (cases b) (simp add: carousel_item_requests)
qed

lemma Carousel_requests:
  "\<exists>rest. requests (snd (Carousel E w)) = requests w @ [carousel_request (randomOffset E)] @ rest"
proof -
  define w1 where "w1 = snd (fetchJson E ''manga'' (carousel_params (randomOffset E)) NoStore w)"
  have w1: "requests w1 = requests w @ [carousel_request (randomOffset E)]"
    unfolding w1_def by (simp add: carousel_settled)
  obtain t1 r1 where f1: "fetchJson E ''manga'' (carousel_params (randomOffset E)) NoStore w
      = ((t1, r1), w1)"
    unfolding w1_def by (metis prod.collapse)
  have "\<exists>rs. requests (snd (Carousel E w)) = requests w1 @ rs"
  proof (cases r1)
    case (Inl e)
    with f1 show ?thesis
      by (simp add: Carousel_def caught_def log_error_def)
  next
    case req: (Inr req)
    show ?thesis
    proof (cases "carousel_ids req")
      case (Inl e)
      with f1 req show ?thesis
        by (simp add: Carousel_def caught_def log_error_def)
    next
      case ids: (Inr mangaIds)
      obtain t2 r2 w2 where f2: "fetchCovers E mangaIds (JObj []) 0 100 w1 = ((t2, r2), w2)"
        by (metis prod.collapse)
      have w2: "\<exists>rs. requests w2 = requests w1 @ rs"
        using fetchJson_requests [of E "''manga''" _ ForceCache w1] f2
        unfolding fetchCovers_def by (metis snd_conv)
      show ?thesis
      proof (cases r2)
        case (Inl e)
        with f1 req ids f2 w2 show ?thesis
          by (simp add: Carousel_def caught_def log_error_def)
      next
        case manga: (Inr manga)
        show ?thesis
        proof (cases "getRandomManga E manga 6")
          case (Inl e)
          with f1 req ids f2 manga w2 show ?thesis
            by (simp add: Carousel_def caught_def log_error_def)
        next
          case sel: (Inr selectedManga)
          obtain bs w3 where s: "start_all (carousel_item E) selectedManga w2 = (bs, w3)"
            by (metis prod.collapse)
          have "\<exists>rs. requests w3 = requests w2 @ rs"
            using start_all_requests [of "carousel_item E" selectedManga w2,
                OF carousel_item_requests_grow] s by simp
          with w2 have w3: "\<exists>rs. requests w3 = requests w1 @ rs" by auto
          from f1 req ids f2 manga sel s w3 show ?thesis
            by (simp add: Carousel_def await_all_requests)
        qed
      qed
    qed
  qed
  with w1 show ?thesis by auto
qed

lemma bit_length_bound: "n < 2 ^ k \<Longrightarrow> bit_length n \<le> k"
proof (induction n arbitrary: k rule: bit_length.induct)
  case (1 n)
  show ?case
  proof (cases "n = 0")
    case True
    then show ?thesis by (simp add: bit_length.simps)
  next
    case False
    with 1(2) obtain j where k: "k = Suc j" by (cases k) auto
    with 1(2) have "n div 2 < 2 ^ j" by simp
    with 1(1) [OF False] have "bit_length (n div 2) \<le> j" .
    with False k show ?thesis by (simp add: bit_length.simps [of n])
  qed
qed

text \<open>Rounding moves a number by at most half a unit of the last digit kept.\<close>

lemma round_to_53_near: "2 * round_to_53 n \<le> 2 * n + 2 ^ (bit_length n - 53)"
proof -
  define s where "s = bit_length n - 53"
  define q where "q = n div 2 ^ s"
  define r where "r = n mod 2 ^ s"
  have n: "n = q * 2 ^ s + r" unfolding q_def r_def by (rule div_mult_mod_eq [symmetric])
  have R: "round_to_53 n =
      (if s = 0 then n
       else if 2 * r < 2 ^ s \<or> (2 * r = 2 ^ s \<and> even q) then q * 2 ^ s
       else (q + 1) * 2 ^ s)"
    unfolding round_to_53_def s_def q_def r_def Let_def ..
  have "2 * round_to_53 n \<le> 2 * n + 2 ^ s"
  proof (cases "s = 0")
    case True
    with R show ?thesis by simp
  next
    case False
    show ?thesis
    proof (cases "2 * r < 2 ^ s \<or> (2 * r = 2 ^ s \<and> even q)")
      case True
      with False R have "round_to_53 n = q * 2 ^ s" by simp
      with n show ?thesis by simp
    next
      case up: False
      with False R have "round_to_53 n = (q + 1) * 2 ^ s" by simp
      moreover from up have "2 ^ s \<le> 2 * r" by auto
      ultimately show ?thesis using n by (simp add: algebra_simps)
    qed
  qed
  then show ?thesis unfolding s_def .
qed

text \<open>A double below 1 is \<open>m / 2\<^sup>e\<close> with \<open>m < 2\<^sup>5\<^sup>3\<close> and \<open>53 \<le> e\<close>. Its product with 200,
  rounded to a double, stays below 200: the exact product is at most
  \<open>200 - 200 / 2\<^sup>5\<^sup>3\<close> and the rounding adds at most \<open>128 / 2\<^sup>5\<^sup>3\<close>.\<close>

lemma rounded_product_below:
  assumes "m < 2 ^ 53" and "53 \<le> e"
  shows "round_to_53 (m * 200) < 200 * 2 ^ e"
proof -
  have m: "m * 200 + 200 \<le> 200 * 2 ^ 53" using assms(1) by simp
  have "(200::nat) < 2 ^ 8" by simp
  then have "m * 200 < 2 ^ 53 * 2 ^ 8"
    using assms(1) by (intro mult_strict_mono) simp_all
  then have "m * 200 < 2 ^ 61" by (simp add: power_add [symmetric])
  then have "bit_length (m * 200) \<le> 61" by (rule bit_length_bound)
  then have "bit_length (m * 200) - 53 \<le> 8" by simp
  then have "(2::nat) ^ (bit_length (m * 200) - 53) \<le> 2 ^ 8"
    by (intro power_increasing) simp_all
  then have small: "(2::nat) ^ (bit_length (m * 200) - 53) \<le> 256" by simp
  have "2 * round_to_53 (m * 200) \<le> 2 * (m * 200) + 2 ^ (bit_length (m * 200) - 53)"
    by (rule round_to_53_near)
  with small have "2 * round_to_53 (m * 200) \<le> 2 * (m * 200) + 256" by linarith
  with m have "round_to_53 (m * 200) < 200 * 2 ^ 53" by linarith
  moreover have "(2::nat) ^ 53 \<le> 2 ^ e"
    using assms(2) by (intro power_increasing) simp_all
  then have "(200::nat) * 2 ^ 53 \<le> 200 * 2 ^ e" by simp
  ultimately show ?thesis by linarith
qed

lemma randomOffset_range:
  assumes "fst (random E) < 2 ^ 53" and "53 \<le> snd (random E)"
  shows "0 \<le> randomOffset E \<and> randomOffset E \<le> 199"
proof -
  obtain m e where r: "random E = (m, e)" by (cases "random E")
  with assms have "round_to_53 (m * 200) < 200 * 2 ^ e"
    by (simp add: rounded_product_below)
  then have "round_to_53 (m * 200) div 2 ^ e < 200"
    by (rule less_mult_imp_div_less)
  with r show ?thesis by (simp add: randomOffset_def)
qed

text \<open>Two products that the rounding decides. The double nearest to 0.24 is
  \<open>2161727821137838 / 2\<^sup>5\<^sup>3\<close>, a little below 0.24: its exact product with 200 is below
  48, the rounded product is 48. The double nearest to 0.995 is
  \<open>8962163258467287 / 2\<^sup>5\<^sup>3\<close>: its exact product with 200 is below 199, the rounded
  product is 199.\<close>

lemma bit_length_example_024: "bit_length 432345564227567600 = 59"
  by (simp add: bit_length.simps)

lemma round_example_024: "round_to_53 432345564227567600 = 432345564227567616"
  by (simp add: round_to_53_def bit_length_example_024)

lemma offset_example_024:
  "2161727821137838 * 200 div 2 ^ 53 = (47::nat)
   \<and> round_to_53 (2161727821137838 * 200) div 2 ^ 53 = 48"
  by (simp add: round_example_024)

lemma bit_length_example_0995: "bit_length 1792432651693457400 = 61"
  by (simp add: bit_length.simps)

lemma round_example_0995: "round_to_53 1792432651693457400 = 1792432651693457408"
  by (simp add: round_to_53_def bit_length_example_0995)

lemma offset_example_0995:
  "8962163258467287 * 200 div 2 ^ 53 = (198::nat)
   \<and> round_to_53 (8962163258467287 * 200) div 2 ^ 53 = 199"
  by (simp add: round_example_0995)

text \<open>
  Claim C10. \<^verbatim>\<open>Math.random()\<close> returns a double in \<open>[0, 1)\<close>, that is \<open>m / 2\<^sup>e\<close> with
  \<open>m < 2\<^sup>5\<^sup>3\<close> and \<open>53 \<le> e\<close>. For every such number the offset
  \<^verbatim>\<open>Math.floor(Math.random() * 200)\<close>, the product being the one of doubles, rounded to
  the nearest double, is an integer between 0 and 199; the offset and the limit 20
  together stay within the first 219 entries of the ranking; and the first request
  \<^verbatim>\<open>Carousel\<close> issues is the listing request with this offset and limit 20, ordered by
  \<^verbatim>\<open>followedCount\<close> and \<^verbatim>\<open>rating\<close>.
\<close>

theorem carousel_offset_range:
  assumes "fst (random E) < 2 ^ 53" and "53 \<le> snd (random E)"
  shows "0 \<le> randomOffset E \<and> randomOffset E \<le> 199 \<and> randomOffset E + 20 \<le> 219
       \<and> (\<exists>rest. requests (snd (Carousel E w))
             = requests w @ [carousel_request (randomOffset E)] @ rest)"
  using randomOffset_range [OF assms] Carousel_requests [of E w] by simp

theorem carousel_offset_range_witness:
  "fst (random \<lparr>net = (\<lambda>i rq. Unreachable), arrival = (\<lambda>i. i),
                 random = (8962163258467287, 53), exchanges = []\<rparr>) < 2 ^ 53
   \<and> 53 \<le> snd (random \<lparr>net = (\<lambda>i rq. Unreachable), arrival = (\<lambda>i. i),
                        random = (8962163258467287, 53), exchanges = []\<rparr>)
   \<and> randomOffset \<lparr>net = (\<lambda>i rq. Unreachable), arrival = (\<lambda>i. i),
                    random = (8962163258467287, 53), exchanges = []\<rparr> = 199
   \<and> requests (snd (Carousel
        \<lparr>net = (\<lambda>i rq. Unreachable), arrival = (\<lambda>i. i),
         random = (8962163258467287, 53), exchanges = []\<rparr>
        \<lparr>requests = [], console = []\<rparr>))
     = [\<lparr>href = ''https://api.mangadex.org/manga?offset=199&limit=20&order%5BfollowedCount%5D=desc&order%5Brating%5D=desc'',
         hint = NoStore\<rparr>]"
proof -
  let ?E = "\<lparr>net = (\<lambda>i rq. Unreachable), arrival = (\<lambda>i. i),
            random = (8962163258467287, 53), exchanges = []\<rparr>"
  let ?w = "\<lparr>requests = [], console = []\<rparr>"
  have off: "randomOffset ?E = 199"
    by (simp add: randomOffset_def round_example_0995)
  have run: "requests (snd (Carousel ?E ?w))
     = [\<lparr>href = ''https://api.mangadex.org/manga?offset=199&limit=20&order%5BfollowedCount%5D=desc&order%5Brating%5D=desc'',
         hint = NoStore\<rparr>]"
    unfolding Carousel_def off
    by (simp add: carousel_settled read_json_def caught_def log_error_def rejected_line_def
        show_int_def show_nat.simps digit_char_def)
  from carousel_offset_range [of ?E ?w] off run show ?thesis by simp
qed

section \<open>The selection of the carousel\<close>

lemma start_all_results:
  "start_all f xs w = (bs, w') \<Longrightarrow> list_all2 (\<lambda>x b. \<exists>v. fst b = fst (f x v)) xs bs"
proof (induction xs arbitrary: w bs w')
  case Nil
  then show ?case by simp
next
  case (Cons x xs)
  obtain p w1 where f: "f x (w\<lparr>console := []\<rparr>) = (p, w1)"
    by (cases "f x (w\<lparr>console := []\<rparr>)")
  obtain cs w2 where s: "start_all f xs (w\<lparr>requests := requests w1\<rparr>) = (cs, w2)"
    by (cases "start_all f xs (w\<lparr>requests := requests w1\<rparr>)")
  from Cons.prems f s have bs: "bs = (p, console w1) # cs" by simp
  have "list_all2 (\<lambda>x b. \<exists>v. fst b = fst (f x v)) xs cs"
    using Cons.IH [OF s] .
  moreover have "\<exists>v. p = fst (f x v)" using f by (metis fst_conv)
  ultimately show ?case unfolding bs by simp
qed

lemma fulfilled_results:
  "earliest_rejection ps = None \<Longrightarrow> list_all2 (\<lambda>p v. snd p = Inr v) ps (fulfilled ps)"
  by (induction ps rule: fulfilled.induct) (auto split: option.splits if_splits)

lemma promise_all_values:
  assumes "snd (promise_all ps) = Inr vs"
  shows "list_all2 (\<lambda>p v. snd p = Inr v) ps vs"
proof (cases "earliest_rejection ps")
  case None
  with assms have "vs = fulfilled ps" by (simp add: promise_all_def)
  with None show ?thesis by (simp add: fulfilled_results)
next
  case (Some te)
  with assms show ?thesis by (cases te) (simp add: promise_all_def)
qed

lemma await_all_values:
  assumes "fst (await_all label bs w) = Inr vs"
  shows "snd (promise_all (map fst bs)) = Inr vs"
proof -
  obtain t r where p: "promise_all (map fst bs) = (t, r)" by (cases "promise_all (map fst bs)")
  with assms show ?thesis by (cases r) (simp_all add: await_all_def)
qed

lemma joint_results:
  assumes "start_all f xs w = (bs, w')" and "fst (await_all label bs w') = Inr vs"
  shows "list_all2 (\<lambda>x v. \<exists>u. snd (fst (f x u)) = Inr v) xs vs"
proof -
  have "list_all2 (\<lambda>x b. \<exists>v. fst b = fst (f x v)) xs bs"
    by (rule start_all_results [OF assms(1)])
  moreover have "list_all2 (\<lambda>p v. snd p = Inr v) (map fst bs) vs"
    by (rule promise_all_values [OF await_all_values [OF assms(2)]])
  then have "list_all2 (\<lambda>b v. snd (fst b) = Inr v) bs vs"
    by (simp add: list_all2_map1)
  ultimately show ?thesis
    by (rule list_all2_trans [rotated]) (auto, metis snd_conv)
qed

lemma carousel_item_view:
  assumes "snd (fst (carousel_item E m u)) = Inr v"
  shows "c_id v = opt m ''id'' \<and> c_type v = opt m ''type''
       \<and> c_tags v = opt (opt m ''attributes'') ''tags''"
proof (cases "carousel_before m")
  case (Inl e)
  with assms show ?thesis by (simp add: carousel_item_def)
next
  case (Inr b)
  obtain mid tags url where b: "b = (mid, tags, url)" by (cases b)
  from Inr b have m: "\<not> nullish m" and mid: "mid = opt m ''id''"
    and tags: "tags = opt (opt m ''attributes'') ''tags''"
    by (auto simp: carousel_before_def and_then_def get_opt split: if_splits sum.splits)
  obtain t r w1 where f: "fetchCover E url u = ((t, r), w1)" by (metis prod.collapse)
  from assms Inr b f obtain src where "carousel_after m mid tags src = Inr v"
    by (cases r) (auto simp: carousel_item_def)
  then have "c_id v = mid \<and> c_tags v = tags \<and> c_type v = field m ''type''"
    by (auto simp: carousel_after_def and_then_def split: sum.splits)
  with m mid tags show ?thesis by (simp add: opt_def)
qed

text \<open>The exchanges of the engine's \<^verbatim>\<open>sort\<close> leave a permutation of the array.\<close>

lemma mset_exchange: "mset (exchange ij xs) = mset xs"
proof (cases ij)
  case (Pair i j)
  then show ?thesis by (simp add: exchange_def mset_swap [of j xs i])
qed

lemma mset_fold_exchange: "mset (fold exchange es xs) = mset xs"
  by (induction es arbitrary: xs) (simp_all add: mset_exchange)

lemma mset_engine_sort: "mset (engine_sort E xs) = mset xs"
  by (simp add: engine_sort_def mset_fold_exchange)

lemma list_all2_maps:
  "list_all2 (\<lambda>x y. g y = f x) xs ys \<Longrightarrow> map g ys = map f xs"
  by (induction rule: list_all2_induct) simp_all

text \<open>
  Claim C6, as the specification words it, speaks of the page that \<^verbatim>\<open>Carousel\<close>
  fetched with its random offset. What \<^verbatim>\<open>Carousel\<close> shuffles and cuts is not that
  page but the \<^verbatim>\<open>data\<close> of the collection its second call, the cover call, resolved to:
  of the listing page only the ids are used, as the parameters of the cover call. In the
  run below the listing page holds the 20 entities \<^verbatim>\<open>a\<close> to \<^verbatim>\<open>t\<close> and the cover call
  is answered with the 20 entities \<^verbatim>\<open>x1\<close> to \<^verbatim>\<open>x20\<close>: the result holds 6 view
  models, none of an entity of the listing page.
\<close>

theorem carousel_listing_page_counterexample:
  "(let entity = (\<lambda>mid.
        JObj [(''id'', JStr mid), (''type'', JStr ''manga''),
              (''attributes'',
                 JObj [(''title'', JObj [(''en'', JStr ''T'')]), (''tags'', JArr []),
                       (''description'', JObj [(''en'', JStr ''D'')])]),
              (''relationships'',
                 JArr [JObj [(''type'', JStr ''cover_art''),
                             (''attributes'', JObj [(''fileName'', JStr ''c.jpg'')])]])]);
       listing = map entity
        [''a'', ''b'', ''c'', ''d'', ''e'', ''f'', ''g'', ''h'', ''i'', ''j'',
         ''k'', ''l'', ''m'', ''n'', ''o'', ''p'', ''q'', ''r'', ''s'', ''t''];
       covers = map entity
        [''x1'', ''x2'', ''x3'', ''x4'', ''x5'', ''x6'', ''x7'', ''x8'', ''x9'', ''x10'',
         ''x11'', ''x12'', ''x13'', ''x14'', ''x15'', ''x16'', ''x17'', ''x18'', ''x19'',
         ''x20''];
       E = \<lparr>net = (\<lambda>i rq. Answered
                 \<lparr>status = 200, statusText = ''OK'', bytes = [],
                  json = Some (JObj [(''data'', JArr (if i = 0 then listing else covers))])\<rparr>),
            arrival = (\<lambda>i. i), random = (0, 53), exchanges = []\<rparr>;
       w = \<lparr>requests = [], console = []\<rparr>;
       views = map (\<lambda>mid.
                \<lparr>c_id = JStr mid, c_tags = JArr [], c_cover = ''data:image/jpeg;base64,'',
                 c_title = JStr ''T'', c_contentRating = JUndefined,
                 c_publicationDemographic = JUndefined, c_status = JUndefined,
                 c_description = JStr ''D'', c_type = JStr ''manga''\<rparr>)
                [''x1'', ''x2'', ''x3'', ''x4'', ''x5'', ''x6'']
    in snd (fst (fetchJson E ''manga'' (carousel_params (randomOffset E)) NoStore w))
         = Inr (JObj [(''data'', JArr listing)])
       \<and> length listing = 20
       \<and> fst (Carousel E w) = Inr views
       \<and> set (map c_id views) \<inter> set (map (\<lambda>m. opt m ''id'') listing) = {})"
  by (simp add: Carousel_def carousel_params_def randomOffset_def round_to_53_zero
      carousel_ids_def getRandomManga_def engine_sort_def carousel_item_def
      carousel_before_def carousel_file_def carousel_after_def carousel_title_def js_or_def
      rejected_line_def run_defs)

text \<open>
  Claim C6, amended. The page that \<^verbatim>\<open>Carousel\<close> shuffles and cuts is the \<^verbatim>\<open>data\<close> of
  the collection its cover call resolved to. In every execution in which that page holds
  20 entities with pairwise different ids and \<^verbatim>\<open>Carousel\<close> returns a result, the result
  holds exactly 6 view models, their ids are pairwise different and are ids of entities
  of that page, and they are, in order, the view models of the first 6 entities of the
  page as the engine's \<^verbatim>\<open>sort\<close> left it.
\<close>

theorem carousel_selection:
  assumes "snd (fst (fetchJson E ''manga'' (carousel_params (randomOffset E)) NoStore w)) = Inr req"
    and "carousel_ids req = Inr mangaIds"
    and "snd (fst (fetchCovers E mangaIds (JObj []) 0 100
           (snd (fetchJson E ''manga'' (carousel_params (randomOffset E)) NoStore w)))) = Inr manga"
    and "opt manga ''data'' = JArr page"
    and "length page = 20" and "distinct (map (\<lambda>m. opt m ''id'') page)"
    and "fst (Carousel E w) = Inr views"
  shows "length views = 6
       \<and> distinct (map c_id views)
       \<and> set (map c_id views) \<subseteq> set (map (\<lambda>m. opt m ''id'') page)
       \<and> list_all2
           (\<lambda>m v. c_id v = opt m ''id'' \<and> c_type v = opt m ''type''
                  \<and> c_tags v = opt (opt m ''attributes'') ''tags'')
           (take 6 (engine_sort E page)) views"
proof -
  define sel where "sel = take 6 (engine_sort E page)"
  obtain t1 w1 where f1:
    "fetchJson E ''manga'' (carousel_params (randomOffset E)) NoStore w = ((t1, Inr req), w1)"
    using assms(1)
    by (cases "fetchJson E ''manga'' (carousel_params (randomOffset E)) NoStore w")
      (auto simp: prod_eq_iff)
  obtain t2 w2 where f2: "fetchCovers E mangaIds (JObj []) 0 100 w1 = ((t2, Inr manga), w2)"
    using assms(3) unfolding f1
    by (cases "fetchCovers E mangaIds (JObj []) 0 100 w1") (auto simp: prod_eq_iff)
  have g: "getRandomManga E manga 6 = Inr sel"
    using assms(4) by (simp add: getRandomManga_def sel_def)
  obtain bs w3 where s: "start_all (carousel_item E) sel w2 = (bs, w3)"
    by (metis prod.collapse)
  have pa: "fst (await_all ''Error in Carousel:'' bs w3) = Inr views"
    using assms(7) f1 assms(2) f2 g s by (simp add: Carousel_def)
  have "list_all2 (\<lambda>m v. \<exists>u. snd (fst (carousel_item E m u)) = Inr v) sel views"
    by (rule joint_results [OF s pa])
  then have views: "list_all2
           (\<lambda>m v. c_id v = opt m ''id'' \<and> c_type v = opt m ''type''
                  \<and> c_tags v = opt (opt m ''attributes'') ''tags'') sel views"
    by (rule list_all2_mono) (auto dest: carousel_item_view)
  then have "list_all2 (\<lambda>m v. c_id v = opt m ''id'') sel views"
    by (rule list_all2_mono) simp
  then have ids: "map c_id views = map (\<lambda>m. opt m ''id'') sel"
    by (rule list_all2_maps)
  have perm: "mset (map (\<lambda>m. opt m ''id'') (engine_sort E page))
      = mset (map (\<lambda>m. opt m ''id'') page)"
    by (simp add: mset_engine_sort)
  have "length (engine_sort E page) = 20"
    using mset_eq_length [OF mset_engine_sort [of E page]] assms(5) by simp
  then have len: "length sel = 6" by (simp add: sel_def)
  have "distinct (map (\<lambda>m. opt m ''id'') (engine_sort E page))"
    using mset_eq_imp_distinct_iff [OF perm] assms(6) by blast
  then have "distinct (take 6 (map (\<lambda>m. opt m ''id'') (engine_sort E page)))"
    by (rule distinct_take)
  then have d: "distinct (map c_id views)" by (simp add: ids sel_def take_map)
  have "set (map (\<lambda>m. opt m ''id'') (engine_sort E page)) = set (map (\<lambda>m. opt m ''id'') page)"
    using perm by (rule mset_eq_setD)
  moreover have "set (take 6 (map (\<lambda>m. opt m ''id'') (engine_sort E page)))
      \<subseteq> set (map (\<lambda>m. opt m ''id'') (engine_sort E page))"
    by (rule set_take_subset)
  ultimately have sub: "set (map c_id views) \<subseteq> set (map (\<lambda>m. opt m ''id'') page)"
    by (simp add: ids sel_def take_map)
  from views len have "length views = 6" by (simp add: list_all2_lengthD [symmetric])
  with d sub views show ?thesis unfolding sel_def by simp
qed

theorem carousel_selection_witness:
  "(let page = map (\<lambda>mid.
        JObj [(''id'', JStr mid), (''type'', JStr ''manga''),
              (''attributes'',
                 JObj [(''title'', JObj [(''en'', JStr ''T'')]), (''tags'', JArr []),
                       (''description'', JObj [(''en'', JStr ''D'')])]),
              (''relationships'',
                 JArr [JObj [(''type'', JStr ''cover_art''),
                             (''attributes'', JObj [(''fileName'', JStr ''c.jpg'')])]])])
        [''a'', ''b'', ''c'', ''d'', ''e'', ''f'', ''g'', ''h'', ''i'', ''j'',
         ''k'', ''l'', ''m'', ''n'', ''o'', ''p'', ''q'', ''r'', ''s'', ''t''];
       E = \<lparr>net = (\<lambda>i rq. Answered
                 \<lparr>status = 200, statusText = ''OK'', bytes = [],
                  json = Some (JObj [(''data'', JArr page)])\<rparr>),
            arrival = (\<lambda>i. i), random = (0, 53), exchanges = [(0, 19), (1, 18)]\<rparr>;
       views = map (\<lambda>mid.
                \<lparr>c_id = JStr mid, c_tags = JArr [], c_cover = ''data:image/jpeg;base64,'',
                 c_title = JStr ''T'', c_contentRating = JUndefined,
                 c_publicationDemographic = JUndefined, c_status = JUndefined,
                 c_description = JStr ''D'', c_type = JStr ''manga''\<rparr>)
                [''t'', ''s'', ''c'', ''d'', ''e'', ''f'']
    in length page = 20 \<and> distinct (map (\<lambda>m. opt m ''id'') page)
       \<and> fst (Carousel E \<lparr>requests = [], console = []\<rparr>) = Inr views
       \<and> length views = 6 \<and> distinct (map c_id views)
       \<and> set (map c_id views) \<subseteq> set (map (\<lambda>m. opt m ''id'') page))"
proof -
  define page where "page = map (\<lambda>mid.
        JObj [(''id'', JStr mid), (''type'', JStr ''manga''),
              (''attributes'',
                 JObj [(''title'', JObj [(''en'', JStr ''T'')]), (''tags'', JArr []),
                       (''description'', JObj [(''en'', JStr ''D'')])]),
              (''relationships'',
                 JArr [JObj [(''type'', JStr ''cover_art''),
                             (''attributes'', JObj [(''fileName'', JStr ''c.jpg'')])]])])
        [''a'', ''b'', ''c'', ''d'', ''e'', ''f'', ''g'', ''h'', ''i'', ''j'',
         ''k'', ''l'', ''m'', ''n'', ''o'', ''p'', ''q'', ''r'', ''s'', ''t'']"
  define E where "E = \<lparr>net = (\<lambda>i rq. Answered
                 \<lparr>status = 200, statusText = ''OK'', bytes = [],
                  json = Some (JObj [(''data'', JArr page)])\<rparr>),
            arrival = (\<lambda>i. i), random = (0, 53), exchanges = [(0, 19), (1, 18)]\<rparr>"
  define w0 where "w0 = \<lparr>requests = [], console = []\<rparr>"
  define views where "views = map (\<lambda>mid.
                \<lparr>c_id = JStr mid, c_tags = JArr [], c_cover = ''data:image/jpeg;base64,'',
                 c_title = JStr ''T'', c_contentRating = JUndefined,
                 c_publicationDemographic = JUndefined, c_status = JUndefined,
                 c_description = JStr ''D'', c_type = JStr ''manga''\<rparr>)
                [''t'', ''s'', ''c'', ''d'', ''e'', ''f'']"
  have len: "length page = 20" by (simp add: page_def)
  have dist: "distinct (map (\<lambda>m. opt m ''id'') page)"
    by (simp add: page_def opt_def nullish_def)
  have listed: "snd (fst (fetchJson E ''manga'' (carousel_params (randomOffset E)) NoStore w0))
      = Inr (JObj [(''data'', JArr page)])"
    by (simp add: carousel_settled read_json_def ok_def E_def)
  have ids: "carousel_ids (JObj [(''data'', JArr page)]) = Inr (JArr (map (\<lambda>m. opt m ''id'') page))"
    by (simp add: carousel_ids_def opt_def nullish_def)
  have covers: "snd (fst (fetchCovers E (JArr (map (\<lambda>m. opt m ''id'') page)) (JObj []) 0 100
           (snd (fetchJson E ''manga'' (carousel_params (randomOffset E)) NoStore w0))))
      = Inr (JObj [(''data'', JArr page)])"
    by (simp add: carousel_settled page_def E_def w0_def run_defs)
  have data: "opt (JObj [(''data'', JArr page)]) ''data'' = JArr page"
    by (simp add: opt_def nullish_def)
  have run: "fst (Carousel E w0) = Inr views"
    by (simp add: Carousel_def carousel_params_def randomOffset_def round_to_53_zero
        carousel_ids_def getRandomManga_def engine_sort_def exchange_def carousel_item_def
        carousel_before_def carousel_file_def carousel_after_def carousel_title_def js_or_def
        rejected_line_def page_def E_def w0_def views_def run_defs)
  from carousel_selection [OF listed ids covers data len dist run]
  have "length views = 6 \<and> distinct (map c_id views)
      \<and> set (map c_id views) \<subseteq> set (map (\<lambda>m. opt m ''id'') page)" by simp
  with len dist run show ?thesis
    unfolding Let_def page_def [symmetric] E_def [symmetric] w0_def [symmetric]
      views_def [symmetric] by simp
qed

end
